theory Spec2Isabelle
  imports Main "HOL-Library.AList" "HOL-Library.Multiset"
begin

section \<open>Characters and strings as Python sees them\<close>

text \<open>
  Source text is modelled as ASCII: a \<^typ>\<open>char\<close> is one character of the file.
  \<open>is_space\<close> is the set of \<open>str.isspace\<close> and of the regular expression class
  \<open>\s\<close> on ASCII (tab, newline, vertical tab, form feed, carriage return, the four
  separators 28..31 and the blank); \<open>is_word\<close> is the class \<open>\w\<close> on ASCII.
\<close>

definition is_space :: "char \<Rightarrow> bool" where
  "is_space c = (let n = of_char c :: nat in (9 \<le> n \<and> n \<le> 13) \<or> (28 \<le> n \<and> n \<le> 32))"

definition is_upper :: "char \<Rightarrow> bool" where
  "is_upper c = (let n = of_char c :: nat in 65 \<le> n \<and> n \<le> 90)"

definition is_lower :: "char \<Rightarrow> bool" where
  "is_lower c = (let n = of_char c :: nat in 97 \<le> n \<and> n \<le> 122)"

definition is_digit :: "char \<Rightarrow> bool" where
  "is_digit c = (let n = of_char c :: nat in 48 \<le> n \<and> n \<le> 57)"

definition is_word :: "char \<Rightarrow> bool" where
  "is_word c = (is_upper c \<or> is_lower c \<or> is_digit c \<or> c = CHR ''_'')"

definition lower_char :: "char \<Rightarrow> char" where
  "lower_char c = (if is_upper c then char_of (of_char c + (32::nat)) else c)"

definition upper_char :: "char \<Rightarrow> char" where
  "upper_char c = (if is_lower c then char_of (of_char c - (32::nat)) else c)"

definition lower :: "string \<Rightarrow> string" where
  "lower s = map lower_char s"

definition upper :: "string \<Rightarrow> string" where
  "upper s = map upper_char s"

definition lstrip :: "string \<Rightarrow> string" where
  "lstrip s = dropWhile is_space s"

definition rstrip :: "string \<Rightarrow> string" where
  "rstrip s = rev (dropWhile is_space (rev s))"

definition strip :: "string \<Rightarrow> string" where
  "strip s = rstrip (lstrip s)"

text \<open>\<open>s.rstrip('\n')\<close>: every trailing newline is removed.\<close>

definition rstrip_nl :: "string \<Rightarrow> string" where
  "rstrip_nl s = rev (dropWhile (\<lambda>c. c = CHR 0x0A) (rev s))"

fun startswith :: "string \<Rightarrow> string \<Rightarrow> bool" where
  "startswith s [] = True"
| "startswith [] (p # ps) = False"
| "startswith (c # cs) (p # ps) = (c = p \<and> startswith cs ps)"

text \<open>\<open>sub in s\<close> on strings.\<close>

fun str_contains :: "string \<Rightarrow> string \<Rightarrow> bool" where
  "str_contains [] sub = (sub = [])"
| "str_contains (c # cs) sub = (startswith (c # cs) sub \<or> str_contains cs sub)"

definition count_char :: "string \<Rightarrow> char \<Rightarrow> int" where
  "count_char s c = int (length (filter (\<lambda>d. d = c) s))"

text \<open>\<open>sep.join(xs)\<close>.\<close>

fun join :: "string \<Rightarrow> string list \<Rightarrow> string" where
  "join sep [] = []"
| "join sep [x] = x"
| "join sep (x # y # ys) = x @ sep @ join sep (y # ys)"

section \<open>Errors, files and Python sequences\<close>

datatype error = FileNotFoundError | OSError | KeyError | IndexError | TypeError

text \<open>
  A path of the file system holds nothing, a regular file with its text, or something
  that exists and cannot be read (a directory, a file without permission).
\<close>

datatype fnode = Regular string | Unreadable

type_synonym filesystem = "string \<rightharpoonup> fnode"

datatype diag = Warn_not_found string | Hash_error string

text \<open>
  Text mode with universal newlines: \<open>\r\n\<close> and a lone \<open>\r\<close> are read as
  \<open>\n\<close>; \<open>readlines\<close> cuts after every newline and keeps it.
\<close>

fun universal_newlines :: "string \<Rightarrow> string" where
  "universal_newlines [] = []"
| "universal_newlines [c] = (if c = CHR 0x0D then [CHR 0x0A] else [c])"
| "universal_newlines (c # d # cs) =
     (if c = CHR 0x0D \<and> d = CHR 0x0A then CHR 0x0A # universal_newlines cs
      else if c = CHR 0x0D then CHR 0x0A # universal_newlines (d # cs)
      else c # universal_newlines (d # cs))"

fun split_keepends :: "string \<Rightarrow> string \<Rightarrow> string list" where
  "split_keepends acc [] = (if acc = [] then [] else [rev acc])"
| "split_keepends acc (c # cs) =
     (if c = CHR 0x0A then rev (c # acc) # split_keepends [] cs
      else split_keepends (c # acc) cs)"

definition readlines :: "string \<Rightarrow> string list" where
  "readlines text = split_keepends [] (universal_newlines text)"

definition read_all_lines :: "filesystem \<Rightarrow> string \<Rightarrow> error + string list" where
  "read_all_lines fs path =
     (case fs path of
        None \<Rightarrow> Inl FileNotFoundError
      | Some Unreadable \<Rightarrow> Inl OSError
      | Some (Regular text) \<Rightarrow> Inr (readlines text))"

text \<open>\<open>xs[i]\<close>: a negative index counts from the end, anything out of range raises.\<close>

definition py_index :: "'a list \<Rightarrow> int \<Rightarrow> error + 'a" where
  "py_index xs i =
     (if 0 \<le> i \<and> i < int (length xs) then Inr (xs ! nat i)
      else if i < 0 \<and> - int (length xs) \<le> i then Inr (xs ! nat (int (length xs) + i))
      else Inl IndexError)"

text \<open>\<open>xs[a:b]\<close>: negative bounds count from the end, then both are clamped; never raises.\<close>

definition py_slice :: "'a list \<Rightarrow> int \<Rightarrow> int \<Rightarrow> 'a list" where
  "py_slice xs a b =
     (let n = int (length xs);
          a' = (if a < 0 then max (a + n) 0 else min a n);
          b' = (if b < 0 then max (b + n) 0 else min b n)
      in take (nat (b' - a')) (drop (nat a') xs))"

text \<open>\<open>range(a, b)\<close>.\<close>

definition py_range :: "int \<Rightarrow> int \<Rightarrow> int list" where
  "py_range a b = [a..b - 1]"

text \<open>A list comprehension whose element expression may raise stops at the first error.\<close>

fun collect :: "('a \<Rightarrow> error + 'b) \<Rightarrow> 'a list \<Rightarrow> error + 'b list" where
  "collect f [] = Inr []"
| "collect f (x # xs) =
     (case f x of
        Inl e \<Rightarrow> Inl e
      | Inr y \<Rightarrow> (case collect f xs of Inl e \<Rightarrow> Inl e | Inr ys \<Rightarrow> Inr (y # ys)))"

record FileRange =
  start_line :: int
  end_line :: int

section \<open>Fingerprint store\<close>

text \<open>
  \<open>hashlib.sha256(...).hexdigest()\<close> is a library function; it is the parameter \<open>H\<close>.
  \<open>file_hash\<close> is \<open>ApiCacheGenerator._file_hash\<close> and
  \<open>CacheGenerator._calculate_file_hash\<close>: a failure to read is printed and gives the
  empty digest.
\<close>

definition file_hash :: "(string \<Rightarrow> string) \<Rightarrow> filesystem \<Rightarrow> string \<Rightarrow> string \<times> diag list" where
  "file_hash H fs path =
     (case fs path of
        Some (Regular text) \<Rightarrow> (H text, [])
      | _ \<Rightarrow> ([], [Hash_error path]))"

text \<open>\<open>ApiCacheGenerator._should_reindex(rel_key, path)\<close>: the answer, the table, the output.\<close>

definition should_reindex ::
  "(string \<Rightarrow> string) \<Rightarrow> filesystem \<Rightarrow> (string \<rightharpoonup> string) \<Rightarrow> string \<Rightarrow> string
     \<Rightarrow> bool \<times> (string \<rightharpoonup> string) \<times> diag list" where
  "should_reindex H fs hashes rel_key path =
     (if fs path = None then (False, hashes, [Warn_not_found path])
      else
        (let (current, out) = file_hash H fs path;
             stored = hashes rel_key
         in if stored \<noteq> Some current then (True, hashes(rel_key \<mapsto> current), out)
            else (False, hashes, out)))"

text \<open>\<open>CacheGenerator._should_update_file(file_path, relative_path)\<close>.\<close>

definition should_update_file ::
  "(string \<Rightarrow> string) \<Rightarrow> filesystem \<Rightarrow> (string \<rightharpoonup> string) \<Rightarrow> string \<Rightarrow> string
     \<Rightarrow> bool \<times> (string \<rightharpoonup> string) \<times> diag list" where
  "should_update_file H fs hashes file_path relative_path =
     (if fs file_path = None then (False, hashes, [Warn_not_found file_path])
      else
        (let (current_hash, out) = file_hash H fs file_path;
             stored_hash = hashes relative_path
         in if stored_hash \<noteq> Some current_hash
            then (True, hashes(relative_path \<mapsto> current_hash), out)
            else (False, hashes, out)))"

section \<open>Reading a range of lines\<close>

text \<open>\<open>CacheGenerator._read_file_lines\<close>, on the lines \<open>readlines\<close> gave.\<close>

definition read_file_lines :: "string list \<Rightarrow> int \<Rightarrow> int \<Rightarrow> error + string list" where
  "read_file_lines lines start end =
     collect (\<lambda>i. case py_index lines i of Inl e \<Rightarrow> Inl e | Inr l \<Rightarrow> Inr (rstrip_nl l))
       (py_range (start - 1) (min end (int (length lines))))"

text \<open>\<open>CacheGenerator._read_file_range_content\<close>.\<close>

definition read_file_range_content :: "string list \<Rightarrow> FileRange \<Rightarrow> error + string" where
  "read_file_range_content lines fr =
     (case read_file_lines lines (start_line fr) (end_line fr) of
        Inl e \<Rightarrow> Inl e
      | Inr ls \<Rightarrow> Inr (join [CHR 0x0A] ls))"

text \<open>\<open>ApiCacheGenerator._read_range\<close>, on the lines \<open>_read_all_lines\<close> gave.\<close>

definition read_range :: "string list \<Rightarrow> FileRange \<Rightarrow> string" where
  "read_range lines fr =
     (let start = max (start_line fr) 1 - 1;
          end = min (end_line fr) (int (length lines))
      in concat (py_slice lines start end))"

section \<open>Pieces of the regular expressions\<close>

text \<open>
  The patterns of the two generators are built from a few pieces, each of which matches
  at the start of a string and gives what is left. A greedy repetition of a character
  class is followed, in every pattern, by something the class excludes, so the longest
  repetition is the only one that can match and no backtracking is lost.
\<close>

text \<open>\<open>\s*\<close>\<close>

definition spaces0 :: "string \<Rightarrow> string" where
  "spaces0 s = dropWhile is_space s"

text \<open>\<open>\s+\<close>\<close>

definition spaces1 :: "string \<Rightarrow> string option" where
  "spaces1 s = (if s \<noteq> [] \<and> is_space (hd s) then Some (dropWhile is_space s) else None)"

text \<open>\<open>(\w+)\<close>: the group and the rest.\<close>

definition word1 :: "string \<Rightarrow> (string \<times> string) option" where
  "word1 s = (if s \<noteq> [] \<and> is_word (hd s)
              then Some (takeWhile is_word s, dropWhile is_word s) else None)"

text \<open>A literal, and a literal under \<open>(?i)\<close>.\<close>

fun lit :: "string \<Rightarrow> string \<Rightarrow> string option" where
  "lit [] s = Some s"
| "lit (p # ps) [] = None"
| "lit (p # ps) (c # cs) = (if c = p then lit ps cs else None)"

fun lit_ci :: "string \<Rightarrow> string \<Rightarrow> string option" where
  "lit_ci [] s = Some s"
| "lit_ci (p # ps) [] = None"
| "lit_ci (p # ps) (c # cs) = (if lower_char c = lower_char p then lit_ci ps cs else None)"

text \<open>\<open>:\s*$\<close>: a colon, then nothing but white space to the end.\<close>

definition colon_to_end :: "string \<Rightarrow> bool" where
  "colon_to_end s = (s \<noteq> [] \<and> hd s = CHR '':'' \<and> (\<forall>c \<in> set (tl s). is_space c))"

section \<open>Data of the two generators\<close>

text \<open>
  A Python \<open>dict\<close> is an association list in insertion order with distinct keys;
  \<open>d[k] = v\<close> is \<^const>\<open>AList.update\<close> (an existing key keeps its place), \<open>d.get(k)\<close>
  is \<^const>\<open>map_of\<close>. Fields of the same name in different classes carry the class's
  initials.
\<close>

record PathEntry =
  operation_id :: string
  pe_method :: string
  pe_path :: string
  pe_range :: FileRange

record SchemaEntry =
  se_name :: string
  se_range :: FileRange

record BoilerplateEntity =
  be_type :: string
  be_name :: string
  be_file :: string
  be_range :: FileRange
  be_code :: string

text \<open>The dictionary \<open>_extract_schema_dependencies\<close> builds for one schema.\<close>

record SchemaDep =
  sd_name :: string
  sd_range :: FileRange
  sd_file :: string
  schema_yaml :: string

record FileIndex =
  file_path :: string
  total_lines :: int
  ranges :: "(string \<times> FileRange) list"

record TableDependency =
  table_name :: string
  td_range :: FileRange
  td_file :: string
  table_sql :: string

record GeneratedCode =
  gc_type :: string
  gc_name :: string
  gc_code :: string
  gc_range :: FileRange
  gc_file :: string

record QueryCache =
  query_name :: string
  query_sql :: string
  query_range :: FileRange
  query_file :: string
  tables :: "TableDependency list"
  generated_code :: "GeneratedCode list"

section \<open>Reference resolver\<close>

subsection \<open>Schema references of an operation\<close>

text \<open>\<open>#/components/schemas/([A-Za-z0-9_]+)\<close> at the start of a string.\<close>

definition is_ident_char :: "char \<Rightarrow> bool" where
  "is_ident_char c = (is_upper c \<or> is_lower c \<or> is_digit c \<or> c = CHR ''_'')"

definition schema_ref_at :: "string \<Rightarrow> (string \<times> string) option" where
  "schema_ref_at s =
     (case lit ''#/components/schemas/'' s of
        None \<Rightarrow> None
      | Some r \<Rightarrow> if r \<noteq> [] \<and> is_ident_char (hd r)
                  then Some (takeWhile is_ident_char r, dropWhile is_ident_char r)
                  else None)"

lemma dropWhile_hd_shorter: "s \<noteq> [] \<Longrightarrow> P (hd s) \<Longrightarrow> length (dropWhile P s) < length s"
  using length_dropWhile_le [of P "tl s"] by (cases s) auto

lemma lit_length: "lit p s = Some r \<Longrightarrow> length r \<le> length s"
  by (induction p s rule: lit.induct) (auto split: if_splits)

lemma schema_ref_at_shorter: "schema_ref_at s = Some (g, r) \<Longrightarrow> length r < length s"
  by (fastforce simp: schema_ref_at_def split: option.splits if_splits
        dest: lit_length dropWhile_hd_shorter [of _ is_ident_char])

text \<open>\<open>re.findall\<close> of that pattern: the matches from left to right, without overlap.\<close>

function findall_schema_ref :: "string \<Rightarrow> string list" where
  "findall_schema_ref [] = []"
| "findall_schema_ref (c # cs) =
     (case schema_ref_at (c # cs) of
        Some (g, r) \<Rightarrow> g # findall_schema_ref r
      | None \<Rightarrow> findall_schema_ref cs)"
  by pat_completeness auto
termination
  by (relation "measure length") (auto dest: schema_ref_at_shorter)

text \<open>
  The loop of \<open>ApiCacheGenerator._extract_schema_dependencies\<close> over the matches, with
  the set \<open>seen\<close> and the list \<open>deps\<close>; \<open>_read_range\<close> opens the specification
  file at every dependency.
\<close>

fun schema_deps_loop ::
  "filesystem \<Rightarrow> string \<Rightarrow> (string \<times> SchemaEntry) list \<Rightarrow> string list \<Rightarrow> string set
     \<Rightarrow> SchemaDep list \<Rightarrow> error + SchemaDep list" where
  "schema_deps_loop fs spec_file schema_index [] seen deps = Inr deps"
| "schema_deps_loop fs spec_file schema_index (m # ms) seen deps =
     (if m \<in> seen then schema_deps_loop fs spec_file schema_index ms seen deps
      else
        (case map_of schema_index m of
           None \<Rightarrow> schema_deps_loop fs spec_file schema_index ms (insert m seen) deps
         | Some entry \<Rightarrow>
             (case read_all_lines fs spec_file of
                Inl e \<Rightarrow> Inl e
              | Inr lines \<Rightarrow>
                  schema_deps_loop fs spec_file schema_index ms (insert m seen)
                    (deps @ [\<lparr>sd_name = m, sd_range = se_range entry, sd_file = spec_file,
                              schema_yaml = read_range lines (se_range entry)\<rparr>]))))"

definition extract_schema_dependencies ::
  "filesystem \<Rightarrow> string \<Rightarrow> string \<Rightarrow> (string \<times> SchemaEntry) list \<Rightarrow> error + SchemaDep list" where
  "extract_schema_dependencies fs spec_file op_block schema_index =
     schema_deps_loop fs spec_file schema_index (findall_schema_ref op_block) {} []"

subsection \<open>Table references of a query\<close>

text \<open>The keywords of a pattern, each followed by \<open>\s+\<close>, under \<open>(?i)\<close>.\<close>

fun keywords_then :: "string list \<Rightarrow> string \<Rightarrow> string option" where
  "keywords_then [] s = Some s"
| "keywords_then (k # ks) s =
     (case lit_ci k s of
        None \<Rightarrow> None
      | Some r \<Rightarrow> (case spaces1 r of None \<Rightarrow> None | Some r' \<Rightarrow> keywords_then ks r'))"

definition table_after :: "string list \<Rightarrow> string \<Rightarrow> (string \<times> string) option" where
  "table_after kws s = (case keywords_then kws s of None \<Rightarrow> None | Some r \<Rightarrow> word1 r)"

lemma lit_ci_length: "lit_ci p s = Some r \<Longrightarrow> length r \<le> length s"
  by (induction p s rule: lit_ci.induct) (auto split: if_splits)

lemma spaces1_length: "spaces1 s = Some r \<Longrightarrow> length r \<le> length s"
  using length_dropWhile_le [of is_space s] by (auto simp: spaces1_def split: if_splits)

lemma keywords_then_length: "keywords_then ks s = Some r \<Longrightarrow> length r \<le> length s"
proof (induction ks arbitrary: s)
  case Nil
  then show ?case by simp
next
  case (Cons a ks)
  then show ?case
    by (fastforce split: option.splits dest: lit_ci_length spaces1_length)
qed

lemma word1_shorter: "word1 s = Some (g, r) \<Longrightarrow> length r < length s"
  by (auto simp: word1_def dropWhile_hd_shorter split: if_splits)

lemma table_after_shorter: "table_after kws s = Some (g, r) \<Longrightarrow> length r < length s"
  by (fastforce simp: table_after_def split: option.splits
        dest: keywords_then_length word1_shorter)

text \<open>
  \<open>re.findall\<close> of \<open>(?i)\bK1\s+...\s+Kn\s+(\w+)\<close>. \<open>prev\<close> says whether the
  character before the position is a word character: \<open>\b\<close> holds where that differs
  from the character at the position.
\<close>

function findall_table :: "string list \<Rightarrow> bool \<Rightarrow> string \<Rightarrow> string list" where
  "findall_table kws prev [] = []"
| "findall_table kws prev (c # cs) =
     (case (if prev = is_word c then None else table_after kws (c # cs)) of
        Some (g, r) \<Rightarrow> g # findall_table kws True r
      | None \<Rightarrow> findall_table kws (is_word c) cs)"
  by pat_completeness auto
termination
  by (relation "measure (\<lambda>(kws, prev, s). length s)")
    (auto dest: table_after_shorter split: if_splits)

definition patterns :: "string list list" where
  "patterns = [[''FROM''], [''JOIN''], [''INTO''], [''UPDATE''],
               [''DELETE'', ''FROM''], [''INSERT'', ''INTO'']]"

definition sql_keywords :: "string list" where
  "sql_keywords =
    [''SELECT'', ''FROM'', ''WHERE'', ''JOIN'', ''INNER'', ''LEFT'', ''RIGHT'', ''FULL'',
     ''OUTER'', ''ON'', ''AS'', ''AND'', ''OR'', ''NOT'', ''IN'', ''EXISTS'', ''UNION'',
     ''INSERT'', ''UPDATE'', ''DELETE'', ''INTO'', ''SET'', ''VALUES'', ''WITH'',
     ''GROUP'', ''ORDER'', ''BY'', ''HAVING'', ''LIMIT'', ''OFFSET'', ''DISTINCT'',
     ''ALL'', ''ANY'', ''CASE'', ''WHEN'', ''THEN'', ''ELSE'', ''END'', ''CAST'',
     ''COALESCE'', ''NULL'', ''TRUE'', ''FALSE'', ''IS'', ''LIKE'', ''ILIKE'',
     ''BETWEEN'', ''ASC'', ''DESC'']"

text \<open>
  The first loop of \<open>CacheGenerator.extract_table_dependencies\<close>: the names given to
  \<open>tables.add\<close>, in the order of the calls.
\<close>

definition table_candidates :: "string \<Rightarrow> string list" where
  "table_candidates sql_text =
     concat (map (\<lambda>kws. filter (\<lambda>t. upper t \<notin> set sql_keywords)
                          (map strip (findall_table kws False sql_text))) patterns)"

text \<open>
  \<open>tables\<close> is a Python \<open>set\<close> of strings. The order in which \<open>for table_name in
  tables\<close> visits it depends on the hashes of the strings, which change from process to
  process; it is the parameter \<open>set_order\<close>, applied to the distinct names in the
  order of their first \<open>add\<close>. \<open>visits_each_once\<close> is all that Python promises of it.
\<close>

definition first_seen :: "'a list \<Rightarrow> 'a list" where
  "first_seen xs = rev (remdups (rev xs))"

definition visits_each_once :: "(string list \<Rightarrow> string list) \<Rightarrow> bool" where
  "visits_each_once set_order = (\<forall>xs. distinct xs \<longrightarrow> mset (set_order xs) = mset xs)"

text \<open>The second loop: \<open>_read_file_range_content\<close> opens the schema file at every table.\<close>

fun table_deps_loop ::
  "filesystem \<Rightarrow> string \<Rightarrow> (string \<times> FileRange) list \<Rightarrow> string list \<Rightarrow> TableDependency list
     \<Rightarrow> error + TableDependency list" where
  "table_deps_loop fs schema_file schema_ranges [] dependencies = Inr dependencies"
| "table_deps_loop fs schema_file schema_ranges (t # ts) dependencies =
     (case map_of schema_ranges t of
        None \<Rightarrow> table_deps_loop fs schema_file schema_ranges ts dependencies
      | Some table_range \<Rightarrow>
          (case read_all_lines fs schema_file of
             Inl e \<Rightarrow> Inl e
           | Inr lines \<Rightarrow>
               (case read_file_range_content lines table_range of
                  Inl e \<Rightarrow> Inl e
                | Inr sql \<Rightarrow>
                    table_deps_loop fs schema_file schema_ranges ts
                      (dependencies @ [\<lparr>table_name = t, td_range = table_range,
                                         td_file = schema_file, table_sql = sql\<rparr>]))))"

definition extract_table_dependencies ::
  "(string list \<Rightarrow> string list) \<Rightarrow> filesystem \<Rightarrow> string \<Rightarrow> string \<Rightarrow> FileIndex
     \<Rightarrow> error + TableDependency list" where
  "extract_table_dependencies set_order fs schema_file sql_text schema_index =
     table_deps_loop fs schema_file (ranges schema_index)
       (set_order (first_seen (table_candidates sql_text))) []"

section \<open>Range extractors of the API generator\<close>

subsection \<open>Patterns\<close>

text \<open>\<open>\s{n}\<close> at the start of a string.\<close>

fun spaces_exactly :: "nat \<Rightarrow> string \<Rightarrow> string option" where
  "spaces_exactly 0 s = Some s"
| "spaces_exactly (Suc n) [] = None"
| "spaces_exactly (Suc n) (c # cs) = (if is_space c then spaces_exactly n cs else None)"

text \<open>
  \<open>path_re = ^\s{2}(/.+):\s*$\<close>. The colon of the pattern is followed by white space
  only, so it is the last character that is not white space; the group is what stands
  between the indentation and that colon: a slash and at least one more character, none
  of them a newline.
\<close>

definition path_re :: "string \<Rightarrow> string option" where
  "path_re line =
     (case spaces_exactly 2 line of
        None \<Rightarrow> None
      | Some r \<Rightarrow>
          (let t = rstrip r in
           if t \<noteq> [] \<and> last t = CHR '':'' \<and> hd t = CHR ''/'' \<and> 3 \<le> length t
              \<and> CHR 0x0A \<notin> set (butlast t)
           then Some (butlast t) else None))"

text \<open>
  \<open>method_re = ^\s{4}(get|post|put|delete|patch|options|head):\s*$\<close> with
  \<open>re.IGNORECASE\<close>: the alternatives are tried in order; the group is the text of the
  line that matched.
\<close>

definition http_methods :: "string list" where
  "http_methods = [''get'', ''post'', ''put'', ''delete'', ''patch'', ''options'', ''head'']"

fun method_alternatives :: "string list \<Rightarrow> string \<Rightarrow> string option" where
  "method_alternatives [] s = None"
| "method_alternatives (m # ms) s =
     (case lit_ci m s of
        Some r \<Rightarrow> if colon_to_end r then Some (take (length m) s) else method_alternatives ms s
      | None \<Rightarrow> method_alternatives ms s)"

definition method_re :: "string \<Rightarrow> string option" where
  "method_re line = Option.bind (spaces_exactly 4 line) (method_alternatives http_methods)"

text \<open>\<open>schema_header_re = ^\s{4}(\w+):\s*$\<close>\<close>

definition schema_header_re :: "string \<Rightarrow> string option" where
  "schema_header_re line =
     Option.bind (spaces_exactly 4 line) (\<lambda>r.
     Option.bind (word1 r) (\<lambda>(g, r'). if colon_to_end r' then Some g else None))"

text \<open>\<open>^type\s+(\w+)\s+\<close>, the common start of the patterns for Go types.\<close>

definition type_name_then :: "string \<Rightarrow> (string \<times> string) option" where
  "type_name_then s =
     Option.bind (lit ''type'' s) (\<lambda>r.
     Option.bind (spaces1 r) (\<lambda>r.
     Option.bind (word1 r) (\<lambda>(g, r).
     Option.bind (spaces1 r) (\<lambda>r. Some (g, r)))))"

text \<open>\<open>struct_re = ^type\s+(\w+)\s+struct\b\<close>\<close>

definition struct_re :: "string \<Rightarrow> string option" where
  "struct_re line =
     Option.bind (type_name_then line) (\<lambda>(g, r).
     Option.bind (lit ''struct'' r) (\<lambda>r'. if r' = [] \<or> \<not> is_word (hd r') then Some g else None))"

text \<open>\<open>func_re = ^func\s+\(siw \*ServerInterfaceWrapper\)\s+(\w+)\s*\(\<close>\<close>

definition func_re :: "string \<Rightarrow> string option" where
  "func_re line =
     Option.bind (lit ''func'' line) (\<lambda>r.
     Option.bind (spaces1 r) (\<lambda>r.
     Option.bind (lit ''(siw *ServerInterfaceWrapper)'' r) (\<lambda>r.
     Option.bind (spaces1 r) (\<lambda>r.
     Option.bind (word1 r) (\<lambda>(g, r).
     Option.bind (lit ''('' (spaces0 r)) (\<lambda>_. Some g))))))"

text \<open>\<open>const_var_re = ^(const|var)\s+(\w+)\b\<close>: both groups.\<close>

definition const_or_var :: "string \<Rightarrow> string \<Rightarrow> (string \<times> string) option" where
  "const_or_var kw line =
     Option.bind (lit kw line) (\<lambda>r.
     Option.bind (spaces1 r) (\<lambda>r.
     Option.bind (word1 r) (\<lambda>(g, r). Some (kw, g))))"

definition const_var_re :: "string \<Rightarrow> (string \<times> string) option" where
  "const_var_re line =
     (case const_or_var ''const'' line of Some m \<Rightarrow> Some m | None \<Rightarrow> const_or_var ''var'' line)"

text \<open>\<open>type_re = ^type\s+(\w+)\s+[^\s]+\<close>\<close>

definition type_re :: "string \<Rightarrow> string option" where
  "type_re line =
     Option.bind (type_name_then line) (\<lambda>(g, r). if r \<noteq> [] then Some g else None)"

subsection \<open>Paths of the specification\<close>

text \<open>
  The loops of \<open>ApiCacheGenerator.index_paths\<close>, innermost first. \<open>extend_end\<close> is
  the loop over \<open>k\<close> and gives \<open>end_line\<close>.
\<close>

definition ends_operation :: "string \<Rightarrow> bool" where
  "ends_operation l = (path_re l \<noteq> None \<or> startswith (strip l) ''components:'')"

function extend_end :: "string list \<Rightarrow> nat \<Rightarrow> int \<Rightarrow> int" where
  "extend_end lines k end =
     (if k < length lines then
        (if ends_operation (lines ! k) then end
         else extend_end lines (k + 1) (int k + 1))
      else end)"
  by pat_completeness auto
termination
  by (relation "measure (\<lambda>(lines, k, e). length lines - k)") auto

declare extend_end.simps [simp del]

text \<open>
  The loop over \<open>j\<close>: the operation identifier found in the method block and the end
  of its range, or nothing when the block ends first.
\<close>

function scan_operation :: "string list \<Rightarrow> nat \<Rightarrow> (string \<times> int) option" where
  "scan_operation lines j =
     (if j < length lines then
        (let l2 = lines ! j; s2 = strip l2; lineno2 = int j + 1 in
         if ends_operation l2 then None
         else if startswith s2 ''operationId:''
         then Some (strip (drop (length ''operationId:'') s2), extend_end lines (j + 1) lineno2)
         else scan_operation lines (j + 1))
      else None)"
  by pat_completeness auto
termination
  by (relation "measure (\<lambda>(lines, j). length lines - j)") auto

declare scan_operation.simps [simp del]

text \<open>
  The outer loop. \<open>current\<close> holds \<open>current_path_line\<close> and \<open>current_path\<close>, which
  are assigned together.
\<close>

function index_paths_loop ::
  "string list \<Rightarrow> nat \<Rightarrow> bool \<Rightarrow> (int \<times> string) option \<Rightarrow> (string \<times> PathEntry) list
     \<Rightarrow> (string \<times> PathEntry) list" where
  "index_paths_loop lines i paths_section_started current paths =
     (if i < length lines then
        (let line = lines ! i; stripped = strip line; lineno = int i + 1 in
         if \<not> paths_section_started \<and> stripped = ''paths:''
         then index_paths_loop lines (i + 1) True current paths
         else if \<not> paths_section_started
         then index_paths_loop lines (i + 1) paths_section_started current paths
         else if startswith stripped ''components:'' then paths
         else
           (case path_re line of
              Some p \<Rightarrow> index_paths_loop lines (i + 1) paths_section_started (Some (lineno, p)) paths
            | None \<Rightarrow>
                (case (method_re line, current) of
                   (Some m, Some (current_path_line, current_path)) \<Rightarrow>
                     (if current_path \<noteq> [] then
                        index_paths_loop lines (i + 1) paths_section_started current
                          (case scan_operation lines (i + 1) of
                             Some (op_id, end) \<Rightarrow>
                               if op_id \<noteq> [] then
                                 AList.update op_id
                                   \<lparr>operation_id = op_id, pe_method = upper m,
                                    pe_path = current_path,
                                    pe_range = \<lparr>start_line = current_path_line, end_line = end\<rparr>\<rparr>
                                   paths
                               else paths
                           | None \<Rightarrow> paths)
                      else index_paths_loop lines (i + 1) paths_section_started current paths)
                 | _ \<Rightarrow> index_paths_loop lines (i + 1) paths_section_started current paths)))
      else paths)"
  by pat_completeness auto
termination
  by (relation "measure (\<lambda>(lines, i, s, c, p). length lines - i)") auto

declare index_paths_loop.simps [simp del]

definition index_paths_lines :: "string list \<Rightarrow> (string \<times> PathEntry) list" where
  "index_paths_lines lines = index_paths_loop lines 0 False None []"

subsection \<open>Schemas of the specification\<close>

text \<open>The inner loop of \<open>index_schemas\<close>: where it stops (\<open>j\<close>) and \<open>end\<close>.\<close>

function schema_extent :: "string list \<Rightarrow> nat \<Rightarrow> int \<Rightarrow> nat \<times> int" where
  "schema_extent lines j end =
     (if j < length lines then
        (let l2 = lines ! j; s2 = rstrip_nl l2 in
         if schema_header_re l2 \<noteq> None then (j, end)
         else if strip s2 \<noteq> [] \<and> \<not> startswith s2 (replicate 6 CHR '' '')
                 \<and> \<not> startswith s2 (replicate 4 CHR '' '')
         then (j, end)
         else schema_extent lines (j + 1) (int j + 1))
      else (j, end))"
  by pat_completeness auto
termination
  by (relation "measure (\<lambda>(lines, j, e). length lines - j)") auto

declare schema_extent.simps [simp del]

lemma schema_extent_ge: "j \<le> fst (schema_extent lines j e)"
proof (induction lines j e rule: schema_extent.induct)
  case (1 lines j e)
  then show ?case
    by (subst schema_extent.simps) (auto simp: Let_def dest: Suc_leD)
qed

function index_schemas_loop ::
  "string list \<Rightarrow> nat \<Rightarrow> bool \<Rightarrow> (string \<times> SchemaEntry) list \<Rightarrow> (string \<times> SchemaEntry) list" where
  "index_schemas_loop lines i schemas_started schemas =
     (if i < length lines then
        (let line = lines ! i; stripped = strip line; lineno = int i + 1 in
         if \<not> schemas_started \<and> stripped = ''schemas:''
         then index_schemas_loop lines (i + 1) True schemas
         else if \<not> schemas_started
         then index_schemas_loop lines (i + 1) schemas_started schemas
         else
           (case schema_header_re line of
              Some name \<Rightarrow>
                index_schemas_loop lines (fst (schema_extent lines (i + 1) lineno)) schemas_started
                  (AList.update name
                     \<lparr>se_name = name,
                      se_range = \<lparr>start_line = lineno,
                                  end_line = snd (schema_extent lines (i + 1) lineno)\<rparr>\<rparr>
                     schemas)
            | None \<Rightarrow> index_schemas_loop lines (i + 1) schemas_started schemas))
      else schemas)"
  by pat_completeness auto
termination
proof (relation "measure (\<lambda>(lines, i, s, p). length lines - i)", goal_cases)
  case (5 lines i started schemas line stripped lineno name)
  then show ?case
    using schema_extent_ge [of "i + 1" lines lineno] by simp
qed auto

declare index_schemas_loop.simps [simp del]

definition index_schemas_lines :: "string list \<Rightarrow> (string \<times> SchemaEntry) list" where
  "index_schemas_lines lines = index_schemas_loop lines 0 False []"

subsection \<open>Entities of the generated boilerplate\<close>

text \<open>
  \<open>ApiCacheGenerator.index_boilerplate\<close> visits every line once (\<open>i\<close> grows by one
  on every path of the loop body, so the line at \<open>i\<close> is the head of what is left).
  \<open>current\<close> holds \<open>current_name\<close> and
  \<open>current_type\<close>, which are assigned together; \<open>all_lines\<close> is what \<open>_read_range\<close>
  reads from the same file for the code of an entity.
\<close>

definition braces :: "string \<Rightarrow> int" where
  "braces line = count_char line CHR ''{'' - count_char line CHR ''}''"

definition close_entity ::
  "string list \<Rightarrow> string \<Rightarrow> (string \<times> string) \<Rightarrow> int \<Rightarrow> int
     \<Rightarrow> (string \<times> BoilerplateEntity) list \<Rightarrow> (string \<times> BoilerplateEntity) list" where
  "close_entity all_lines file current current_start lineno entities =
     (let end = (if lineno > current_start then lineno - 1 else current_start);
          fr = \<lparr>start_line = current_start, end_line = end\<rparr>
      in AList.update (fst current)
           \<lparr>be_type = snd current, be_name = fst current, be_file = file, be_range = fr,
            be_code = read_range all_lines fr\<rparr> entities)"

fun boilerplate_loop ::
  "string list \<Rightarrow> string \<Rightarrow> string list \<Rightarrow> nat \<Rightarrow> (string \<times> string) option \<Rightarrow> int \<Rightarrow> int
     \<Rightarrow> (string \<times> BoilerplateEntity) list \<Rightarrow> (string \<times> BoilerplateEntity) list" where
  "boilerplate_loop all_lines file [] i current current_start brace_count entities =
     (case current of
        Some c \<Rightarrow>
          (let fr = \<lparr>start_line = current_start, end_line = int (length all_lines)\<rparr>
           in AList.update (fst c)
                \<lparr>be_type = snd c, be_name = fst c, be_file = file, be_range = fr,
                 be_code = read_range all_lines fr\<rparr> entities)
      | None \<Rightarrow> entities)"
| "boilerplate_loop all_lines file (line # rest) i current current_start brace_count0 entities =
     (let stripped = strip line;
          lineno = int i + 1;
          brace_count = brace_count0 + braces line;
          closed = (\<lambda>c. close_entity all_lines file c current_start lineno entities)
      in
        case func_re line of
          Some name \<Rightarrow>
            boilerplate_loop all_lines file rest (i + 1) (Some (name, ''func'')) lineno
              (braces line)
              (case current of Some c \<Rightarrow> closed c | None \<Rightarrow> entities)
        | None \<Rightarrow>
        (case struct_re line of
          Some name \<Rightarrow>
            boilerplate_loop all_lines file rest (i + 1) (Some (name, ''struct'')) lineno
              (braces line)
              (case current of
                 Some c \<Rightarrow> if brace_count = 0 then closed c else entities
               | None \<Rightarrow> entities)
        | None \<Rightarrow>
        (case const_var_re line of
          Some (kw, name) \<Rightarrow>
            boilerplate_loop all_lines file rest (i + 1) (Some (name, kw)) lineno
              brace_count
              (case current of
                 Some c \<Rightarrow> if brace_count = 0 then closed c else entities
               | None \<Rightarrow> entities)
        | None \<Rightarrow>
        (case type_re line of
          Some name \<Rightarrow>
            boilerplate_loop all_lines file rest (i + 1) (Some (name, ''type'')) lineno
              brace_count
              (case current of
                 Some c \<Rightarrow> if brace_count = 0 then closed c else entities
               | None \<Rightarrow> entities)
        | None \<Rightarrow>
            (case current of
               Some c \<Rightarrow>
                 if brace_count = 0 \<and> stripped \<noteq> [] \<and> \<not> startswith stripped ''//''
                 then boilerplate_loop all_lines file rest (i + 1) None current_start
                        brace_count (closed c)
                 else boilerplate_loop all_lines file rest (i + 1) current current_start
                        brace_count entities
             | None \<Rightarrow>
                 boilerplate_loop all_lines file rest (i + 1) current current_start
                   brace_count entities)))))"

definition index_boilerplate_lines ::
  "string \<Rightarrow> string list \<Rightarrow> (string \<times> BoilerplateEntity) list" where
  "index_boilerplate_lines file lines = boilerplate_loop lines file lines 0 None 0 0 []"

section \<open>Range extractors of the SQL generator\<close>

subsection \<open>Patterns\<close>

text \<open>
  \<open>(?i)^\s*create\s+table\s+(?:if\s+not\s+exists\s+)?(\w+)\<close>: when the optional group
  or the name after it does not match, the name is looked for without the group.
\<close>

definition create_table_pattern :: "string \<Rightarrow> string option" where
  "create_table_pattern line =
     Option.bind (keywords_then [''create'', ''table''] (spaces0 line)) (\<lambda>r.
       (case Option.bind (keywords_then [''if'', ''not'', ''exists''] r) word1 of
          Some (g, _) \<Rightarrow> Some g
        | None \<Rightarrow> map_option fst (word1 r)))"

text \<open>\<open>(?i)^\s*create\s+type\s+(\w+)\<close> and \<open>(?i)^\s*create\s+function\s+(\w+)\<close>\<close>

definition create_type_pattern :: "string \<Rightarrow> string option" where
  "create_type_pattern line =
     map_option fst (table_after [''create'', ''type''] (spaces0 line))"

definition create_function_pattern :: "string \<Rightarrow> string option" where
  "create_function_pattern line =
     map_option fst (table_after [''create'', ''function''] (spaces0 line))"

text \<open>\<open>query_pattern = ^--\s*name:\s*(\w+)\s*:(\w+)\<close>: the first group.\<close>

definition query_pattern :: "string \<Rightarrow> string option" where
  "query_pattern line =
     Option.bind (lit ''--'' line) (\<lambda>r.
     Option.bind (lit ''name:'' (spaces0 r)) (\<lambda>r.
     Option.bind (word1 (spaces0 r)) (\<lambda>(g, r).
     Option.bind (lit '':'' (spaces0 r)) (\<lambda>r.
     Option.bind (word1 r) (\<lambda>_. Some g)))))"

text \<open>
  \<open>func_pattern = ^func\s+(?:\([^)]+\)\s+)?(\w+)\<close>: the optional receiver, then the
  name; without a receiver that matches, the name is looked for right after \<open>func\<close>.
\<close>

definition receiver :: "string \<Rightarrow> string option" where
  "receiver s =
     Option.bind (lit ''('' s) (\<lambda>r.
       if r \<noteq> [] \<and> hd r \<noteq> CHR '')''
       then Option.bind (lit '')'' (dropWhile (\<lambda>c. c \<noteq> CHR '')'') r)) spaces1
       else None)"

definition func_pattern :: "string \<Rightarrow> string option" where
  "func_pattern s =
     Option.bind (lit ''func'' s) (\<lambda>r.
     Option.bind (spaces1 r) (\<lambda>r.
       (case Option.bind (receiver r) word1 of
          Some (g, _) \<Rightarrow> Some g
        | None \<Rightarrow> map_option fst (word1 r))))"

text \<open>\<open>^type\s+(\w+)\s+struct\<close>, \<open>^type\s+(\w+)\s+interface\<close> and \<open>^type\s+(\w+)\s+\<close>\<close>

definition struct_pattern :: "string \<Rightarrow> string option" where
  "struct_pattern s =
     Option.bind (type_name_then s) (\<lambda>(g, r). map_option (\<lambda>_. g) (lit ''struct'' r))"

definition interface_pattern :: "string \<Rightarrow> string option" where
  "interface_pattern s =
     Option.bind (type_name_then s) (\<lambda>(g, r). map_option (\<lambda>_. g) (lit ''interface'' r))"

definition type_pattern :: "string \<Rightarrow> string option" where
  "type_pattern s = map_option fst (type_name_then s)"

subsection \<open>Schema file\<close>

text \<open>
  The loop \<open>for line in f\<close> of \<open>CacheGenerator.index_schema_file\<close>; the first
  equation is the code after the loop. The three patterns have the same branch.
\<close>

definition create_entity :: "string \<Rightarrow> string option" where
  "create_entity line =
     (case create_table_pattern line of
        Some n \<Rightarrow> Some n
      | None \<Rightarrow>
          (case create_type_pattern line of
             Some n \<Rightarrow> Some n
           | None \<Rightarrow> create_function_pattern line))"

fun schema_file_loop ::
  "string list \<Rightarrow> int \<Rightarrow> string option \<Rightarrow> int \<Rightarrow> bool \<Rightarrow> (string \<times> FileRange) list
     \<Rightarrow> (string \<times> FileRange) list" where
  "schema_file_loop [] line_num current_entity_name current_entity_start in_definition rs =
     (case current_entity_name of
        Some name \<Rightarrow>
          if name \<noteq> [] \<and> in_definition
          then AList.update name \<lparr>start_line = current_entity_start, end_line = line_num\<rparr> rs
          else rs
      | None \<Rightarrow> rs)"
| "schema_file_loop (line # rest) line_num0 current_entity_name current_entity_start in_definition rs =
     (let line_num = line_num0 + 1 in
      case create_entity line of
        Some new_name \<Rightarrow>
          schema_file_loop rest line_num (Some new_name) line_num True
            (case current_entity_name of
               Some name \<Rightarrow>
                 if name \<noteq> [] \<and> in_definition
                 then AList.update name
                        \<lparr>start_line = current_entity_start, end_line = line_num - 1\<rparr> rs
                 else rs
             | None \<Rightarrow> rs)
      | None \<Rightarrow>
          if in_definition \<and> startswith (strip line) '';''
          then schema_file_loop rest line_num None current_entity_start False
                 (case current_entity_name of
                    Some name \<Rightarrow>
                      if name \<noteq> []
                      then AList.update name
                             \<lparr>start_line = current_entity_start, end_line = line_num\<rparr> rs
                      else rs
                  | None \<Rightarrow> rs)
          else schema_file_loop rest line_num current_entity_name current_entity_start
                 in_definition rs)"

definition index_schema_lines :: "string \<Rightarrow> string list \<Rightarrow> FileIndex" where
  "index_schema_lines relative_path lines =
     \<lparr>file_path = relative_path, total_lines = int (length lines),
      ranges = schema_file_loop lines 0 None 0 False []\<rparr>"

subsection \<open>Query file\<close>

fun query_file_loop ::
  "string list \<Rightarrow> int \<Rightarrow> string option \<Rightarrow> int \<Rightarrow> (string \<times> FileRange) list
     \<Rightarrow> (string \<times> FileRange) list" where
  "query_file_loop [] line_num current_query_name current_query_start rs =
     (case current_query_name of
        Some name \<Rightarrow>
          if name \<noteq> []
          then AList.update name \<lparr>start_line = current_query_start, end_line = line_num\<rparr> rs
          else rs
      | None \<Rightarrow> rs)"
| "query_file_loop (line # rest) line_num0 current_query_name current_query_start rs =
     (let line_num = line_num0 + 1 in
      case query_pattern line of
        Some new_name \<Rightarrow>
          query_file_loop rest line_num (Some new_name) line_num
            (case current_query_name of
               Some name \<Rightarrow>
                 if name \<noteq> []
                 then AList.update name
                        \<lparr>start_line = current_query_start, end_line = line_num - 1\<rparr> rs
                 else rs
             | None \<Rightarrow> rs)
      | None \<Rightarrow> query_file_loop rest line_num current_query_name current_query_start rs)"

definition index_query_lines :: "string \<Rightarrow> string list \<Rightarrow> FileIndex" where
  "index_query_lines relative_path lines =
     \<lparr>file_path = relative_path, total_lines = int (length lines),
      ranges = query_file_loop lines 0 None 0 []\<rparr>"

subsection \<open>Generated Go file\<close>

text \<open>
  \<open>CacheGenerator.index_generated_file\<close>. \<open>open_entity\<close> is the start of an entity
  on the trimmed line: the name, whether the entity before it is closed only at brace
  depth zero, and whether the brace count starts again at this line.
\<close>

definition open_entity :: "string \<Rightarrow> (string \<times> bool \<times> bool) option" where
  "open_entity trimmed =
     (case func_pattern trimmed of
        Some n \<Rightarrow> Some (n, False, True)
      | None \<Rightarrow>
     (case struct_pattern trimmed of
        Some n \<Rightarrow> Some (n, True, True)
      | None \<Rightarrow>
     (case interface_pattern trimmed of
        Some n \<Rightarrow> Some (n, True, True)
      | None \<Rightarrow>
     (case type_pattern trimmed of
        Some n \<Rightarrow>
          if \<not> str_contains trimmed ''struct'' \<and> \<not> str_contains trimmed ''interface''
          then Some (n, True, False) else None
      | None \<Rightarrow> None))))"

fun generated_file_loop ::
  "string list \<Rightarrow> int \<Rightarrow> string option \<Rightarrow> int \<Rightarrow> int \<Rightarrow> bool \<Rightarrow> (string \<times> FileRange) list
     \<Rightarrow> (string \<times> FileRange) list" where
  "generated_file_loop [] line_num current_entity_name current_entity_start brace_count in_entity rs =
     (case current_entity_name of
        Some name \<Rightarrow>
          if name \<noteq> [] \<and> in_entity
          then AList.update name \<lparr>start_line = current_entity_start, end_line = line_num\<rparr> rs
          else rs
      | None \<Rightarrow> rs)"
| "generated_file_loop (line # rest) line_num0 current_entity_name current_entity_start brace_count0
     in_entity rs =
     (let line_num = line_num0 + 1;
          trimmed = strip line;
          brace_count = brace_count0 + braces line
      in
        case open_entity trimmed of
          Some (new_name, at_depth_zero, restart) \<Rightarrow>
            generated_file_loop rest line_num (Some new_name) line_num
              (if restart then braces line else brace_count) True
              (case current_entity_name of
                 Some name \<Rightarrow>
                   if name \<noteq> [] \<and> in_entity \<and> (at_depth_zero \<longrightarrow> brace_count = 0)
                   then AList.update name
                          \<lparr>start_line = current_entity_start, end_line = line_num - 1\<rparr> rs
                   else rs
               | None \<Rightarrow> rs)
        | None \<Rightarrow>
            if in_entity \<and> brace_count = 0 \<and> trimmed \<noteq> [] \<and> \<not> startswith trimmed ''//''
            then generated_file_loop rest line_num None current_entity_start brace_count False
                   (case current_entity_name of
                      Some name \<Rightarrow>
                        if name \<noteq> []
                        then AList.update name
                               \<lparr>start_line = current_entity_start, end_line = line_num\<rparr> rs
                        else rs
                    | None \<Rightarrow> rs)
            else generated_file_loop rest line_num current_entity_name current_entity_start
                   brace_count in_entity rs)"

definition index_generated_lines :: "string \<Rightarrow> string list \<Rightarrow> FileIndex" where
  "index_generated_lines relative_path lines =
     \<lparr>file_path = relative_path, total_lines = int (length lines),
      ranges = generated_file_loop lines 0 None 0 0 False []\<rparr>"

section \<open>Valid line ranges\<close>

text \<open>
  A range of a file of \<open>n_lines\<close> lines is valid when \<open>1 \<le> start \<le> end \<le> n_lines\<close>;
  an index is valid when the range of every entry is.
\<close>

definition valid_range :: "int \<Rightarrow> FileRange \<Rightarrow> bool" where
  "valid_range n_lines fr = (1 \<le> start_line fr \<and> start_line fr \<le> end_line fr \<and> end_line fr \<le> n_lines)"

definition all_valid :: "int \<Rightarrow> ('k \<times> 'v) list \<Rightarrow> ('v \<Rightarrow> FileRange) \<Rightarrow> bool" where
  "all_valid n_lines index range_of = (\<forall>(name, entry) \<in> set index. valid_range n_lines (range_of entry))"

section \<open>Index persistence\<close>

text \<open>
  What \<open>json.dump\<close> writes and \<open>json.load\<close> reads back is a JSON value; the text of
  the file is not modelled. An object is the \<open>dict\<close> that \<open>json.load\<close> returns, in the
  order of its keys.
\<close>

datatype json = JNull | JInt int | JString string | JArray "json list" | JObject "(string \<times> json) list"

definition bind_err :: "error + 'a \<Rightarrow> ('a \<Rightarrow> error + 'b) \<Rightarrow> error + 'b" where
  "bind_err m f = (case m of Inl e \<Rightarrow> Inl e | Inr x \<Rightarrow> f x)"

text \<open>\<open>data[key]\<close> on a loaded value: a missing key raises, so does a value without keys.\<close>

definition item :: "json \<Rightarrow> string \<Rightarrow> error + json" where
  "item data key =
     (case data of
        JObject kvs \<Rightarrow> (case map_of kvs key of Some v \<Rightarrow> Inr v | None \<Rightarrow> Inl KeyError)
      | _ \<Rightarrow> Inl TypeError)"

text \<open>\<open>data.get(key, default)\<close>\<close>

definition item_or :: "json \<Rightarrow> string \<Rightarrow> json \<Rightarrow> error + json" where
  "item_or data key dflt =
     (case data of
        JObject kvs \<Rightarrow> (case map_of kvs key of Some v \<Rightarrow> Inr v | None \<Rightarrow> Inr dflt)
      | _ \<Rightarrow> Inl TypeError)"

text \<open>
  The fields of the records are typed; a loaded value of another type is an error here
  (Python would carry it on until it is used).
\<close>

definition as_int :: "json \<Rightarrow> error + int" where
  "as_int j = (case j of JInt n \<Rightarrow> Inr n | _ \<Rightarrow> Inl TypeError)"

definition as_string :: "json \<Rightarrow> error + string" where
  "as_string j = (case j of JString s \<Rightarrow> Inr s | _ \<Rightarrow> Inl TypeError)"

text \<open>\<open>data.items()\<close>\<close>

definition items :: "json \<Rightarrow> error + (string \<times> json) list" where
  "items j = (case j of JObject kvs \<Rightarrow> Inr kvs | _ \<Rightarrow> Inl TypeError)"

text \<open>
  A dictionary built entry by entry, as the comprehensions and loops of the loaders do:
  \<open>d[k] = f(k, v)\<close> for every item, the first error ending it.
\<close>

fun build_dict ::
  "(string \<Rightarrow> json \<Rightarrow> error + 'v) \<Rightarrow> (string \<times> json) list \<Rightarrow> (string \<times> 'v) list
     \<Rightarrow> error + (string \<times> 'v) list" where
  "build_dict f [] d = Inr d"
| "build_dict f ((k, v) # kvs) d =
     (case f k v of Inl e \<Rightarrow> Inl e | Inr x \<Rightarrow> build_dict f kvs (AList.update k x d))"

subsection \<open>Ranges\<close>

text \<open>\<open>FileRange.to_dict\<close> and \<open>FileRange(r["start_line"], r["end_line"])\<close>\<close>

definition range_to_dict :: "FileRange \<Rightarrow> json" where
  "range_to_dict fr =
     JObject [(''start_line'', JInt (start_line fr)), (''end_line'', JInt (end_line fr))]"

definition range_of_dict :: "json \<Rightarrow> error + FileRange" where
  "range_of_dict r =
     bind_err (bind_err (item r ''start_line'') as_int) (\<lambda>s.
     bind_err (bind_err (item r ''end_line'') as_int) (\<lambda>e.
     Inr \<lparr>start_line = s, end_line = e\<rparr>))"

subsection \<open>Indices of the API generator\<close>

text \<open>\<open>PathEntry.to_dict\<close>, \<open>SchemaEntry.to_dict\<close>, \<open>BoilerplateEntity.to_dict\<close>\<close>

definition PathEntry_to_dict :: "PathEntry \<Rightarrow> json" where
  "PathEntry_to_dict e =
     JObject [(''operation_id'', JString (operation_id e)), (''method'', JString (pe_method e)),
              (''path'', JString (pe_path e)), (''range'', range_to_dict (pe_range e))]"

definition SchemaEntry_to_dict :: "SchemaEntry \<Rightarrow> json" where
  "SchemaEntry_to_dict e =
     JObject [(''name'', JString (se_name e)), (''range'', range_to_dict (se_range e))]"

definition BoilerplateEntity_to_dict :: "BoilerplateEntity \<Rightarrow> json" where
  "BoilerplateEntity_to_dict e =
     JObject [(''type'', JString (be_type e)), (''name'', JString (be_name e)),
              (''file'', JString (be_file e)), (''range'', range_to_dict (be_range e)),
              (''code'', JString (be_code e))]"

text \<open>
  \<open>index_data\<close> as the three indexers write it: the path of the file, its number of
  lines, and the entries under \<open>section\<close>.
\<close>

definition index_data ::
  "string \<Rightarrow> string \<Rightarrow> int \<Rightarrow> ('e \<Rightarrow> json) \<Rightarrow> (string \<times> 'e) list \<Rightarrow> json" where
  "index_data section path n to_dict entries =
     JObject [(''file_path'', JString path), (''total_lines'', JInt n),
              (section, JObject (map (\<lambda>(name, e). (name, to_dict e)) entries))]"

text \<open>The loaders at the head of \<open>index_paths\<close>, \<open>index_schemas\<close>, \<open>index_boilerplate\<close>.\<close>

definition load_path_entry :: "string \<Rightarrow> json \<Rightarrow> error + PathEntry" where
  "load_path_entry op_id info =
     bind_err (bind_err (item info ''range'') range_of_dict) (\<lambda>r.
     bind_err (bind_err (item info ''method'') as_string) (\<lambda>m.
     bind_err (bind_err (item info ''path'') as_string) (\<lambda>p.
     Inr \<lparr>operation_id = op_id, pe_method = m, pe_path = p, pe_range = r\<rparr>)))"

definition load_schema_entry :: "string \<Rightarrow> json \<Rightarrow> error + SchemaEntry" where
  "load_schema_entry name info =
     bind_err (bind_err (item info ''range'') range_of_dict) (\<lambda>r.
     Inr \<lparr>se_name = name, se_range = r\<rparr>)"

definition load_boilerplate_entity :: "string \<Rightarrow> json \<Rightarrow> error + BoilerplateEntity" where
  "load_boilerplate_entity name info =
     bind_err (bind_err (item info ''range'') range_of_dict) (\<lambda>r.
     bind_err (bind_err (item info ''type'') as_string) (\<lambda>t.
     bind_err (bind_err (item info ''file'') as_string) (\<lambda>f.
     bind_err (bind_err (item_or info ''code'' (JString [])) as_string) (\<lambda>c.
     Inr \<lparr>be_type = t, be_name = name, be_file = f, be_range = r, be_code = c\<rparr>))))"

definition load_section ::
  "string \<Rightarrow> (string \<Rightarrow> json \<Rightarrow> error + 'e) \<Rightarrow> json \<Rightarrow> error + (string \<times> 'e) list" where
  "load_section section load_entry data =
     bind_err (bind_err (item_or data section (JObject [])) items) (\<lambda>kvs.
     build_dict load_entry kvs [])"

subsection \<open>Indices of the SQL generator\<close>

text \<open>\<open>FileIndex.to_dict\<close>, and the loader written three times in \<open>generate\<close>.\<close>

definition FileIndex_to_dict :: "FileIndex \<Rightarrow> json" where
  "FileIndex_to_dict index =
     JObject [(''file_path'', JString (file_path index)),
              (''total_lines'', JInt (total_lines index)),
              (''ranges'', JObject (map (\<lambda>(name, r). (name, range_to_dict r)) (ranges index)))]"

definition load_FileIndex :: "json \<Rightarrow> error + FileIndex" where
  "load_FileIndex data =
     bind_err (bind_err (item data ''file_path'') as_string) (\<lambda>p.
     bind_err (bind_err (item data ''total_lines'') as_int) (\<lambda>n.
     bind_err (bind_err (item data ''ranges'') items) (\<lambda>kvs.
     bind_err (build_dict (\<lambda>name r. range_of_dict r) kvs []) (\<lambda>rs.
     Inr \<lparr>file_path = p, total_lines = n, ranges = rs\<rparr>))))"

text \<open>
  What the loaders rely on: the keys of an index are distinct and every entry is stored
  under its own name.
\<close>

definition keyed_by :: "('e \<Rightarrow> string) \<Rightarrow> (string \<times> 'e) list \<Rightarrow> bool" where
  "keyed_by name_of d = (distinct (map fst d) \<and> (\<forall>(k, e) \<in> set d. name_of e = k))"

section \<open>Cache assembly of the API generator\<close>

text \<open>
  What a run leaves behind in the cache directory: the fingerprint table (written by
  \<open>_save_hashes\<close> at the end of \<open>generate\<close>, read by the next run) and the JSON
  files, by name. The source files are not in the cache directory and no run writes
  them.
\<close>

record store =
  st_hashes :: "string \<rightharpoonup> string"
  st_cache :: "string \<rightharpoonup> json"

text \<open>
  The configuration: both paths are required keys, taken relative to the base path, and
  a file of the file system is named by that relative path.
\<close>

record api_config =
  cfg_spec_file :: string
  cfg_boilerplate_file :: string

text \<open>
  The three indexers have one shape: when the fingerprint check says no and the index
  file exists, the index is loaded from it; otherwise the file is read (a missing file
  raises), the extractor runs, and the index is written.
\<close>

definition api_index ::
  "(string \<Rightarrow> string) \<Rightarrow> filesystem \<Rightarrow> string \<Rightarrow> string \<Rightarrow> string \<Rightarrow> (json \<Rightarrow> error + 'i)
     \<Rightarrow> (string list \<Rightarrow> 'i) \<Rightarrow> ('i \<Rightarrow> int \<Rightarrow> json) \<Rightarrow> store \<Rightarrow> error + ('i \<times> store)" where
  "api_index H fs rel_key path index_file load extract data st =
     (let (reindex, hashes', out) = should_reindex H fs (st_hashes st) rel_key path in
      case (reindex, st_cache st index_file) of
        (False, Some saved) \<Rightarrow>
          bind_err (load saved) (\<lambda>index. Inr (index, st\<lparr>st_hashes := hashes'\<rparr>))
      | _ \<Rightarrow>
          bind_err (read_all_lines fs path) (\<lambda>lines.
            let index = extract lines in
            Inr (index, \<lparr>st_hashes = hashes',
                        st_cache = (st_cache st)(index_file \<mapsto> data index (int (length lines)))\<rparr>)))"

definition index_paths ::
  "(string \<Rightarrow> string) \<Rightarrow> api_config \<Rightarrow> filesystem \<Rightarrow> store
     \<Rightarrow> error + ((string \<times> PathEntry) list \<times> store)" where
  "index_paths H cfg fs st =
     api_index H fs ''taskflow.yaml'' (cfg_spec_file cfg) ''taskflow.paths.index.json''
       (load_section ''paths'' load_path_entry) index_paths_lines
       (\<lambda>paths n. index_data ''paths'' (cfg_spec_file cfg) n PathEntry_to_dict paths) st"

definition index_schemas ::
  "(string \<Rightarrow> string) \<Rightarrow> api_config \<Rightarrow> filesystem \<Rightarrow> store
     \<Rightarrow> error + ((string \<times> SchemaEntry) list \<times> store)" where
  "index_schemas H cfg fs st =
     api_index H fs ''taskflow.yaml.schemas'' (cfg_spec_file cfg) ''taskflow.schemas.index.json''
       (load_section ''schemas'' load_schema_entry) index_schemas_lines
       (\<lambda>schemas n. index_data ''schemas'' (cfg_spec_file cfg) n SchemaEntry_to_dict schemas) st"

definition index_boilerplate ::
  "(string \<Rightarrow> string) \<Rightarrow> api_config \<Rightarrow> filesystem \<Rightarrow> store
     \<Rightarrow> error + ((string \<times> BoilerplateEntity) list \<times> store)" where
  "index_boilerplate H cfg fs st =
     api_index H fs ''boilerplate.gen.go'' (cfg_boilerplate_file cfg)
       ''boilerplate.gen.go.index.json''
       (load_section ''entities'' load_boilerplate_entity)
       (index_boilerplate_lines (cfg_boilerplate_file cfg))
       (\<lambda>entities n.
          index_data ''entities'' (cfg_boilerplate_file cfg) n BoilerplateEntity_to_dict entities) st"

text \<open>\<open>_extract_boilerplate_entities_for_op\<close>\<close>

definition extract_boilerplate_entities_for_op ::
  "string \<Rightarrow> (string \<times> BoilerplateEntity) list \<Rightarrow> json list" where
  "extract_boilerplate_entities_for_op op_id boilerplate_index =
     map (\<lambda>(name, ent). BoilerplateEntity_to_dict ent)
       (filter (\<lambda>(name, ent). name = op_id \<or> startswith name op_id \<or> str_contains name op_id)
          boilerplate_index)"

definition SchemaDep_to_dict :: "SchemaDep \<Rightarrow> json" where
  "SchemaDep_to_dict d =
     JObject [(''name'', JString (sd_name d)), (''range'', range_to_dict (sd_range d)),
              (''file'', JString (sd_file d)), (''schema_yaml'', JString (schema_yaml d))]"

text \<open>
  \<open>generate_operation_cache\<close>: the name of the cache file and the object written to
  it, or the exception that the caller catches.
\<close>

definition generate_operation_cache ::
  "api_config \<Rightarrow> filesystem \<Rightarrow> PathEntry \<Rightarrow> (string \<times> SchemaEntry) list
     \<Rightarrow> (string \<times> BoilerplateEntity) list \<Rightarrow> error + (string \<times> json)" where
  "generate_operation_cache cfg fs op schema_index boilerplate_index =
     bind_err (read_all_lines fs (cfg_spec_file cfg)) (\<lambda>lines.
       let op_block = read_range lines (pe_range op) in
       bind_err (extract_schema_dependencies fs (cfg_spec_file cfg) op_block schema_index)
         (\<lambda>schemas.
            Inr (operation_id op @ ''.api.cache.json'',
                 JObject
                   [(''operation_id'', JString (operation_id op)),
                    (''path'', JString (pe_path op)),
                    (''method'', JString (pe_method op)),
                    (''spec_file'', JString (cfg_spec_file cfg)),
                    (''path_range'', range_to_dict (pe_range op)),
                    (''path_yaml'', JString op_block),
                    (''schemas'', JArray (map SchemaDep_to_dict schemas)),
                    (''boilerplate'',
                     JObject
                       [(''file'', JString (cfg_boilerplate_file cfg)),
                        (''entities'',
                         JArray (extract_boilerplate_entities_for_op (operation_id op)
                                   boilerplate_index))])])))"

text \<open>The loop of \<open>generate\<close> over the operations; an exception skips the operation.\<close>

fun operation_caches ::
  "api_config \<Rightarrow> filesystem \<Rightarrow> (string \<times> SchemaEntry) list \<Rightarrow> (string \<times> BoilerplateEntity) list
     \<Rightarrow> (string \<times> PathEntry) list \<Rightarrow> (string \<rightharpoonup> json) \<Rightarrow> (string \<rightharpoonup> json)" where
  "operation_caches cfg fs schemas_index boilerplate_index [] cache = cache"
| "operation_caches cfg fs schemas_index boilerplate_index ((op_id, entry) # ops) cache =
     operation_caches cfg fs schemas_index boilerplate_index ops
       (case generate_operation_cache cfg fs entry schemas_index boilerplate_index of
          Inl e \<Rightarrow> cache
        | Inr (name, obj) \<Rightarrow> cache(name \<mapsto> obj))"

text \<open>\<open>ApiCacheGenerator.generate\<close>, from the store one run left to the store of the next.\<close>

definition api_generate ::
  "(string \<Rightarrow> string) \<Rightarrow> api_config \<Rightarrow> filesystem \<Rightarrow> store \<Rightarrow> error + store" where
  "api_generate H cfg fs st =
     bind_err (index_paths H cfg fs st) (\<lambda>(paths_index, st1).
     bind_err (index_schemas H cfg fs st1) (\<lambda>(schemas_index, st2).
     bind_err (index_boilerplate H cfg fs st2) (\<lambda>(boilerplate_index, st3).
       Inr (st3\<lparr>st_cache :=
                  operation_caches cfg fs schemas_index boilerplate_index paths_index
                    (st_cache st3)\<rparr>))))"

section \<open>Cache assembly of the SQL generator\<close>

text \<open>
  The configuration of \<open>CacheGenerator\<close>: \<open>schema_file\<close> and \<open>query_file\<close>, and
  \<open>generated\<close>, a dictionary from a key to the path of a generated file. The key
  \<open>generated\<close> may be absent from the configuration file (\<open>None\<close>); the code reads
  it with \<open>self.config["generated"]\<close>.
\<close>

record sql_config =
  cfg_schema_file :: string
  cfg_query_file :: string
  cfg_generated :: "(string \<times> string) list option"

text \<open>\<open>Path(p).name\<close> and \<open>Path(p).stem\<close> for a relative path without a trailing slash.\<close>

definition path_name :: "string \<Rightarrow> string" where
  "path_name p = rev (takeWhile (\<lambda>c. c \<noteq> CHR ''/'') (rev p))"

definition stem :: "string \<Rightarrow> string" where
  "stem p =
     (let name = path_name p;
          after = takeWhile (\<lambda>c. c \<noteq> CHR ''.'') (rev name);
          i = int (length name) - int (length after) - 1
      in if 0 < i \<and> i < int (length name) - 1 then take (nat i) name else name)"

text \<open>
  \<open>index_schema_file\<close>, \<open>index_query_file\<close> and \<open>index_generated_file\<close> have one
  shape: nothing when the fingerprint check says no, otherwise the index of the file as
  it is now.
\<close>

definition index_file_if_changed ::
  "(string \<Rightarrow> string) \<Rightarrow> filesystem \<Rightarrow> (string \<Rightarrow> string list \<Rightarrow> FileIndex) \<Rightarrow> string \<Rightarrow> store
     \<Rightarrow> error + (FileIndex option \<times> store)" where
  "index_file_if_changed H fs extract path st =
     (let (changed, hashes', out) = should_update_file H fs (st_hashes st) path path in
      if \<not> changed then Inr (None, st\<lparr>st_hashes := hashes'\<rparr>)
      else bind_err (read_all_lines fs path) (\<lambda>lines.
             Inr (Some (extract path lines), st\<lparr>st_hashes := hashes'\<rparr>)))"

definition index_schema_file ::
  "(string \<Rightarrow> string) \<Rightarrow> sql_config \<Rightarrow> filesystem \<Rightarrow> store \<Rightarrow> error + (FileIndex option \<times> store)" where
  "index_schema_file H cfg fs st = index_file_if_changed H fs index_schema_lines (cfg_schema_file cfg) st"

definition index_query_file ::
  "(string \<Rightarrow> string) \<Rightarrow> sql_config \<Rightarrow> filesystem \<Rightarrow> store \<Rightarrow> error + (FileIndex option \<times> store)" where
  "index_query_file H cfg fs st = index_file_if_changed H fs index_query_lines (cfg_query_file cfg) st"

definition index_generated_file ::
  "(string \<Rightarrow> string) \<Rightarrow> filesystem \<Rightarrow> string \<Rightarrow> store \<Rightarrow> error + (FileIndex option \<times> store)" where
  "index_generated_file H fs path st = index_file_if_changed H fs index_generated_lines path st"

text \<open>\<open>if index: self.save_index(index, filename)\<close>\<close>

definition save_index :: "FileIndex option \<Rightarrow> string \<Rightarrow> store \<Rightarrow> store" where
  "save_index index filename st =
     (case index of
        Some i \<Rightarrow> st\<lparr>st_cache := (st_cache st)(filename \<mapsto> FileIndex_to_dict i)\<rparr>
      | None \<Rightarrow> st)"

text \<open>The first loop of \<open>generate\<close> over \<open>config["generated"].items()\<close>.\<close>

fun index_generated_files ::
  "(string \<Rightarrow> string) \<Rightarrow> filesystem \<Rightarrow> (string \<times> string) list \<Rightarrow> (string \<times> FileIndex) list \<Rightarrow> store
     \<Rightarrow> error + ((string \<times> FileIndex) list \<times> store)" where
  "index_generated_files H fs [] generated_indices st = Inr (generated_indices, st)"
| "index_generated_files H fs ((gen_file_key, gen_file_path) # rest) generated_indices st =
     (if fs gen_file_path \<noteq> None then
        bind_err (index_generated_file H fs gen_file_path st) (\<lambda>(gen_index, st').
          case gen_index of
            Some i \<Rightarrow>
              index_generated_files H fs rest (AList.update gen_file_key i generated_indices)
                (save_index gen_index (stem gen_file_path @ ''.index.json'') st')
          | None \<Rightarrow> index_generated_files H fs rest generated_indices st')
      else index_generated_files H fs rest generated_indices st)"

text \<open>\<open>if not index: if index_file.exists(): ... json.load ...\<close>\<close>

definition load_if_not_updated :: "FileIndex option \<Rightarrow> string \<Rightarrow> store \<Rightarrow> error + FileIndex option" where
  "load_if_not_updated index filename st =
     (case index of
        Some i \<Rightarrow> Inr (Some i)
      | None \<Rightarrow>
          (case st_cache st filename of
             None \<Rightarrow> Inr None
           | Some data \<Rightarrow> bind_err (load_FileIndex data) (\<lambda>i. Inr (Some i))))"

text \<open>The second loop over \<open>config["generated"].items()\<close>.\<close>

fun load_generated_indices ::
  "(string \<times> string) list \<Rightarrow> (string \<times> FileIndex) list \<Rightarrow> store
     \<Rightarrow> error + (string \<times> FileIndex) list" where
  "load_generated_indices [] generated_indices st = Inr generated_indices"
| "load_generated_indices ((gen_file_key, gen_file_path) # rest) generated_indices st =
     (if map_of generated_indices gen_file_key = None then
        (case st_cache st (stem gen_file_path @ ''.index.json'') of
           None \<Rightarrow> load_generated_indices rest generated_indices st
         | Some data \<Rightarrow>
             bind_err (load_FileIndex data) (\<lambda>i.
               load_generated_indices rest (AList.update gen_file_key i generated_indices) st))
      else load_generated_indices rest generated_indices st)"

text \<open>\<open>_read_file_range_content\<close> on a path: the file is opened at every call.\<close>

definition read_content :: "filesystem \<Rightarrow> string \<Rightarrow> FileRange \<Rightarrow> error + string" where
  "read_content fs path fr =
     bind_err (read_all_lines fs path) (\<lambda>lines. read_file_range_content lines fr)"

text \<open>
  \<open>extract_generated_code\<close>. The index of a generated file is the first of
  \<open>generated_indices.values()\<close> with that \<open>file_path\<close>.
\<close>

definition index_of_file :: "(string \<times> FileIndex) list \<Rightarrow> string \<Rightarrow> FileIndex option" where
  "index_of_file generated_indices path =
     find (\<lambda>idx. file_path idx = path) (map snd generated_indices)"

definition related_name :: "string \<Rightarrow> string \<Rightarrow> bool" where
  "related_name q entity_name =
     (str_contains (lower entity_name) (lower q) \<or> str_contains (lower q) (lower entity_name))"

definition function_code ::
  "filesystem \<Rightarrow> string \<Rightarrow> string \<Rightarrow> (string \<times> FileIndex) list \<Rightarrow> error + GeneratedCode list" where
  "function_code fs query_go q generated_indices =
     (if fs query_go \<noteq> None then
        (case index_of_file generated_indices query_go of
           Some query_go_index \<Rightarrow>
             (case map_of (ranges query_go_index) q of
                Some code_range \<Rightarrow>
                  bind_err (read_content fs query_go code_range) (\<lambda>code_content.
                    Inr [\<lparr>gc_type = ''function'', gc_name = q, gc_code = code_content,
                          gc_range = code_range, gc_file = query_go\<rparr>])
              | None \<Rightarrow> Inr [])
         | None \<Rightarrow> Inr [])
      else Inr [])"

definition struct_code ::
  "filesystem \<Rightarrow> string \<Rightarrow> string \<Rightarrow> (string \<times> FileIndex) list \<Rightarrow> error + GeneratedCode list" where
  "struct_code fs models_go q generated_indices =
     (if fs models_go \<noteq> None then
        (case index_of_file generated_indices models_go of
           Some models_go_index \<Rightarrow>
             collect (\<lambda>(entity_name, entity_range).
                 bind_err (read_content fs models_go entity_range) (\<lambda>code_content.
                   Inr \<lparr>gc_type = ''struct'', gc_name = entity_name, gc_code = code_content,
                        gc_range = entity_range, gc_file = models_go\<rparr>))
               (filter (\<lambda>(entity_name, entity_range). related_name q entity_name)
                  (ranges models_go_index))
         | None \<Rightarrow> Inr [])
      else Inr [])"

definition config_item :: "(string \<times> 'v) list option \<Rightarrow> string \<Rightarrow> error + 'v" where
  "config_item d key =
     (case d of
        None \<Rightarrow> Inl KeyError
      | Some kvs \<Rightarrow> (case map_of kvs key of None \<Rightarrow> Inl KeyError | Some v \<Rightarrow> Inr v))"

definition extract_generated_code ::
  "sql_config \<Rightarrow> filesystem \<Rightarrow> string \<Rightarrow> (string \<times> FileIndex) list \<Rightarrow> error + GeneratedCode list" where
  "extract_generated_code cfg fs q generated_indices =
     bind_err (config_item (cfg_generated cfg) ''query_sql_go'') (\<lambda>query_go.
     bind_err (function_code fs query_go q generated_indices) (\<lambda>functions.
     bind_err (config_item (cfg_generated cfg) ''models_sql_go'') (\<lambda>models_go.
     bind_err (struct_code fs models_go q generated_indices) (\<lambda>structs.
       Inr (functions @ structs)))))"

text \<open>\<open>generate_query_cache\<close>\<close>

definition generate_query_cache ::
  "(string list \<Rightarrow> string list) \<Rightarrow> sql_config \<Rightarrow> filesystem \<Rightarrow> string \<Rightarrow> FileRange \<Rightarrow> FileIndex
     \<Rightarrow> (string \<times> FileIndex) list \<Rightarrow> error + QueryCache" where
  "generate_query_cache set_order cfg fs q q_range schema_index generated_indices =
     bind_err (read_content fs (cfg_query_file cfg) q_range) (\<lambda>sql_text.
     bind_err (extract_table_dependencies set_order fs (cfg_schema_file cfg) sql_text schema_index)
       (\<lambda>deps.
     bind_err (extract_generated_code cfg fs q generated_indices) (\<lambda>code.
       Inr \<lparr>query_name = q, query_sql = sql_text, query_range = q_range,
            query_file = cfg_query_file cfg, tables = deps, generated_code = code\<rparr>)))"

text \<open>\<open>to_dict\<close> of the cache and of its parts.\<close>

definition TableDependency_to_dict :: "TableDependency \<Rightarrow> json" where
  "TableDependency_to_dict t =
     JObject [(''table_name'', JString (table_name t)), (''range'', range_to_dict (td_range t)),
              (''file'', JString (td_file t)), (''table_sql'', JString (table_sql t))]"

definition GeneratedCode_to_dict :: "GeneratedCode \<Rightarrow> json" where
  "GeneratedCode_to_dict g =
     JObject [(''type'', JString (gc_type g)), (''name'', JString (gc_name g)),
              (''code'', JString (gc_code g)), (''range'', range_to_dict (gc_range g)),
              (''file'', JString (gc_file g))]"

definition QueryCache_to_dict :: "QueryCache \<Rightarrow> json" where
  "QueryCache_to_dict c =
     JObject [(''query_name'', JString (query_name c)), (''query_sql'', JString (query_sql c)),
              (''query_range'', range_to_dict (query_range c)),
              (''query_file'', JString (query_file c)),
              (''tables'', JArray (map TableDependency_to_dict (tables c))),
              (''generated_code'', JArray (map GeneratedCode_to_dict (generated_code c)))]"

text \<open>
  The loop of \<open>generate\<close> over the queries: \<open>generate_query_cache\<close>, then
  \<open>save_query_cache\<close>; an exception skips the query.
\<close>

fun query_caches ::
  "(string list \<Rightarrow> string list) \<Rightarrow> sql_config \<Rightarrow> filesystem \<Rightarrow> FileIndex \<Rightarrow> (string \<times> FileIndex) list
     \<Rightarrow> (string \<times> FileRange) list \<Rightarrow> (string \<rightharpoonup> json) \<Rightarrow> (string \<rightharpoonup> json)" where
  "query_caches set_order cfg fs schema_index generated_indices [] cache = cache"
| "query_caches set_order cfg fs schema_index generated_indices ((q, q_range) # rest) cache =
     query_caches set_order cfg fs schema_index generated_indices rest
       (case generate_query_cache set_order cfg fs q q_range schema_index generated_indices of
          Inl e \<Rightarrow> cache
        | Inr c \<Rightarrow> cache(q @ ''.cache.json'' \<mapsto> QueryCache_to_dict c))"

text \<open>\<open>CacheGenerator.generate\<close>, from the store one run left to the store of the next.\<close>

definition sql_generate ::
  "(string list \<Rightarrow> string list) \<Rightarrow> (string \<Rightarrow> string) \<Rightarrow> sql_config \<Rightarrow> filesystem \<Rightarrow> store
     \<Rightarrow> error + store" where
  "sql_generate set_order H cfg fs st =
     bind_err (index_schema_file H cfg fs st) (\<lambda>(schema_index, st).
     let st = save_index schema_index ''schema.sql.index.json'' st in
     bind_err (index_query_file H cfg fs st) (\<lambda>(query_index, st).
     let st = save_index query_index ''query.sql.index.json'' st in
     bind_err (case cfg_generated cfg of None \<Rightarrow> Inl KeyError | Some g \<Rightarrow> Inr g) (\<lambda>gen.
     bind_err (index_generated_files H fs gen [] st) (\<lambda>(generated_indices, st).
     bind_err (load_if_not_updated schema_index ''schema.sql.index.json'' st) (\<lambda>schema_index.
     bind_err (load_if_not_updated query_index ''query.sql.index.json'' st) (\<lambda>query_index.
     bind_err (load_generated_indices gen generated_indices st) (\<lambda>generated_indices.
       Inr (case (query_index, schema_index) of
              (Some qi, Some si) \<Rightarrow>
                st\<lparr>st_cache :=
                     query_caches set_order cfg fs si generated_indices (ranges qi) (st_cache st)\<rparr>
            | _ \<Rightarrow> st))))))))"


text \<open>
  Two runs in succession, the second on the store the first one left, and the cache file
  of a given name after a run.
\<close>

definition cache_after :: "error + store \<Rightarrow> string \<Rightarrow> json option" where
  "cache_after r name = (case r of Inl e \<Rightarrow> None | Inr st \<Rightarrow> st_cache st name)"

definition twice :: "(store \<Rightarrow> error + store) \<Rightarrow> store \<Rightarrow> error + store" where
  "twice run st = bind_err (run st) run"

section \<open>Sample inputs\<close>

subsection \<open>Inputs of the resolver\<close>

text \<open>The query \<open>SELECT * FROM orders WHERE status = 'NEW'\<close>.\<close>

definition sql_new :: string where
  "sql_new = ''SELECT * FROM orders WHERE status = '' @ [CHR 0x27] @ ''NEW'' @ [CHR 0x27]"

definition fs_orders :: filesystem where
  "fs_orders = [''schema.sql'' \<mapsto> Regular ''CREATE TABLE orders (\<newline>  id int\<newline>);\<newline>'']"

definition idx_orders :: FileIndex where
  "idx_orders = \<lparr>file_path = ''schema.sql'', total_lines = 3,
                  ranges = [(''orders'', \<lparr>start_line = 1, end_line = 3\<rparr>)]\<rparr>"

definition fs_ab :: filesystem where
  "fs_ab = [''schema.sql'' \<mapsto> Regular ''CREATE TABLE a (x int);\<newline>CREATE TABLE b (x int);\<newline>'']"

definition idx_ab :: FileIndex where
  "idx_ab = \<lparr>file_path = ''schema.sql'', total_lines = 2,
              ranges = [(''a'', \<lparr>start_line = 1, end_line = 1\<rparr>),
                        (''b'', \<lparr>start_line = 2, end_line = 2\<rparr>)]\<rparr>"

definition fs_spec :: filesystem where
  "fs_spec = [''taskflow.yaml'' \<mapsto> Regular ''    Task:\<newline>      type: object\<newline>'']"

definition block_refs :: string where
  "block_refs = ''$ref: #/components/schemas/Task\<newline>$ref: #/components/schemas/Err\<newline>$ref: #/components/schemas/Task''"

definition sidx_task :: "(string \<times> SchemaEntry) list" where
  "sidx_task = [(''Task'', \<lparr>se_name = ''Task'', se_range = \<lparr>start_line = 1, end_line = 2\<rparr>\<rparr>)]"

definition deps_task :: "SchemaDep list" where
  "deps_task = [\<lparr>sd_name = ''Task'', sd_range = \<lparr>start_line = 1, end_line = 2\<rparr>,
                 sd_file = ''taskflow.yaml'', schema_yaml = ''    Task:\<newline>      type: object\<newline>''\<rparr>]"

definition deps_ba :: "TableDependency list" where
  "deps_ba = [\<lparr>table_name = ''b'', td_range = \<lparr>start_line = 2, end_line = 2\<rparr>,
                td_file = ''schema.sql'', table_sql = ''CREATE TABLE b (x int);''\<rparr>,
              \<lparr>table_name = ''a'', td_range = \<lparr>start_line = 1, end_line = 1\<rparr>,
                td_file = ''schema.sql'', table_sql = ''CREATE TABLE a (x int);''\<rparr>]"

subsection \<open>Inputs of the extractors\<close>

text \<open>
  A specification with one path, one method and one operation, followed by the
  components; the two lines of Go of the generated-source scenario; a schema and a query
  file.
\<close>

definition spec_doc :: "string list" where
  "spec_doc =
    [''openapi: 3.0.0\<newline>'',
     ''paths:\<newline>'',
     ''  /tasks:\<newline>'',
     ''    get:\<newline>'',
     ''      summary: List tasks\<newline>'',
     ''      operationId: ListTasks\<newline>'',
     ''      responses:\<newline>'',
     ''        200:\<newline>'',
     ''          $ref: #/components/schemas/Task\<newline>'',
     ''components:\<newline>'',
     ''  schemas:\<newline>'',
     ''    Task:\<newline>'',
     ''      type: object\<newline>'']"


definition go_foo_bar :: "string list" where
  "go_foo_bar = [''type Foo struct { A int }\<newline>'', ''func Bar() {}\<newline>'']"

definition schema_sql_doc :: "string list" where
  "schema_sql_doc = [''CREATE TABLE orders (\<newline>'', ''  id int\<newline>'', '');\<newline>'']"

definition query_sql_doc :: "string list" where
  "query_sql_doc = [''-- name: GetOrder :one\<newline>'', ''SELECT * FROM orders WHERE id = $1;\<newline>'']"

subsection \<open>Inputs of a run of the SQL generator\<close>




definition empty_store :: store where
  "empty_store = \<lparr>st_hashes = Map.empty, st_cache = Map.empty\<rparr>"

subsection \<open>Inputs of the indexers\<close>




subsection \<open>Inputs of two runs in succession\<close>

text \<open>
  The layout that \<open>extract_generated_code\<close> expects (it looks for the functions of a
  query in \<open>query.sql.go\<close>): a schema with one table, a query file with one query, and
  the generated file \<open>gen/query.sql.go\<close> with the function of that query.
\<close>

definition fs_sqlc :: filesystem where
  "fs_sqlc = [''schema.sql'' \<mapsto> Regular ''CREATE TABLE a (x int);\<newline>'',
              ''query.sql'' \<mapsto> Regular ''-- name: GetA :one\<newline>SELECT x FROM a;\<newline>'',
              ''gen/query.sql.go'' \<mapsto> Regular ''package db\<newline>\<newline>func GetA() {}\<newline>'']"

definition cfg_sqlc :: sql_config where
  "cfg_sqlc = \<lparr>cfg_schema_file = ''schema.sql'', cfg_query_file = ''query.sql'',
               cfg_generated = Some [(''query_sql_go'', ''gen/query.sql.go''),
                                     (''models_sql_go'', ''gen/models.go'')]\<rparr>"

section \<open>Properties of the helpers\<close>

lemma collect_cong_Inr:
  "(\<And>x. x \<in> set xs \<Longrightarrow> f x = Inr (g x)) \<Longrightarrow> collect f xs = Inr (map g xs)"
  by (induction xs) auto

lemma map_nth_upto:
  "0 \<le> a \<Longrightarrow> b \<le> int (length xs) \<Longrightarrow>
     map (\<lambda>i. xs ! nat i) [a..b - 1] = take (nat (b - a)) (drop (nat a) xs)"
proof (induction "nat (b - a)" arbitrary: a)
  case 0
  then show ?case by simp
next
  case (Suc n)
  then have ab: "a < b" by linarith
  then have "[a..b - 1] = a # [a + 1..b - 1]" by (simp add: upto_rec1)
  moreover have "map (\<lambda>i. xs ! nat i) [a + 1..b - 1] = take (nat (b - (a + 1))) (drop (nat (a + 1)) xs)"
    using Suc by (intro Suc.hyps(1)) auto
  moreover have "nat a < length xs" using Suc.prems ab by linarith
  moreover have "nat (b - a) = Suc (nat (b - (a + 1)))" using ab by linarith
  moreover have "nat (a + 1) = Suc (nat a)" using Suc.prems by linarith
  ultimately show ?case
    by (simp add: Cons_nth_drop_Suc[symmetric])
qed

lemma read_file_lines_total:
  assumes "1 \<le> s"
  shows "read_file_lines lines s e =
    Inr (map rstrip_nl (take (nat (min e (int (length lines)) - (s - 1))) (drop (nat (s - 1)) lines)))"
proof -
  let ?b = "min e (int (length lines))"
  have "\<And>i. i \<in> set [s - 1..?b - 1] \<Longrightarrow> py_index lines i = Inr (lines ! nat i)"
    using assms by (auto simp: py_index_def)
  then have "read_file_lines lines s e = Inr (map (\<lambda>i. rstrip_nl (lines ! nat i)) [s - 1..?b - 1])"
    unfolding read_file_lines_def py_range_def
    by (intro collect_cong_Inr) simp
  also have "map (\<lambda>i. rstrip_nl (lines ! nat i)) [s - 1..?b - 1]
      = map rstrip_nl (map (\<lambda>i. lines ! nat i) [s - 1..?b - 1])"
    by simp
  also have "map (\<lambda>i. lines ! nat i) [s - 1..?b - 1] = take (nat (?b - (s - 1))) (drop (nat (s - 1)) lines)"
    using assms by (intro map_nth_upto) auto
  finally show ?thesis .
qed

lemma read_file_range_content_total:
  "1 \<le> start_line fr \<Longrightarrow> \<exists>t. read_file_range_content lines fr = Inr t"
  by (simp add: read_file_range_content_def read_file_lines_total)

lemma py_slice_to_end:
  "0 \<le> a \<Longrightarrow> py_slice xs a (int (length xs)) = drop (nat a) xs"
  by (auto simp: py_slice_def Let_def min_def)

lemma py_slice_past_end:
  "int (length xs) \<le> a \<Longrightarrow> py_slice xs a b = []"
  by (auto simp: py_slice_def Let_def min_def max_def)

section \<open>The fingerprint check\<close>

text \<open>
  Claim C2. For every key and path: when the file does not exist the check prints a
  warning, answers no and leaves the table as it is; when the file's digest differs from
  the stored one, or none is stored, it answers yes and stores the digest under the key;
  when the digest is the stored one it answers no and leaves the table as it is. Both
  generators' checks behave so.
\<close>

theorem fingerprint_check:
  "(fs path = None \<longrightarrow>
      should_reindex H fs hashes k path = (False, hashes, [Warn_not_found path]) \<and>
      should_update_file H fs hashes path k = (False, hashes, [Warn_not_found path])) \<and>
   (fs path = Some (Regular body) \<and> hashes k \<noteq> Some (H body) \<longrightarrow>
      should_reindex H fs hashes k path = (True, hashes(k \<mapsto> H body), []) \<and>
      should_update_file H fs hashes path k = (True, hashes(k \<mapsto> H body), [])) \<and>
   (fs path = Some (Regular body) \<and> hashes k = Some (H body) \<longrightarrow>
      should_reindex H fs hashes k path = (False, hashes, []) \<and>
      should_update_file H fs hashes path k = (False, hashes, []))"
  by (simp add: should_reindex_def should_update_file_def file_hash_def)

theorem fingerprint_check_witness:
  "should_reindex rev Map.empty Map.empty ''k'' ''f'' = (False, Map.empty, [Warn_not_found ''f'']) \<and>
   should_reindex rev [''f'' \<mapsto> Regular ''ab''] [''k'' \<mapsto> ''ab''] ''k'' ''f''
     = (True, [''k'' \<mapsto> ''ba''], []) \<and>
   should_update_file rev [''f'' \<mapsto> Regular ''ab''] Map.empty ''f'' ''k''
     = (True, [''k'' \<mapsto> ''ba''], []) \<and>
   should_reindex rev [''f'' \<mapsto> Regular ''ab''] [''k'' \<mapsto> ''ba''] ''k'' ''f''
     = (False, [''k'' \<mapsto> ''ba''], [])"
  using fingerprint_check [where fs = Map.empty and path = "''f''" and H = rev
      and hashes = Map.empty and k = "''k''" and body = "''ab''"]
    fingerprint_check [where fs = "[''f'' \<mapsto> Regular ''ab'']" and path = "''f''" and H = rev
      and hashes = "[''k'' \<mapsto> ''ab'']" and k = "''k''" and body = "''ab''"]
    fingerprint_check [where fs = "[''f'' \<mapsto> Regular ''ab'']" and path = "''f''" and H = rev
      and hashes = Map.empty and k = "''k''" and body = "''ab''"]
    fingerprint_check [where fs = "[''f'' \<mapsto> Regular ''ab'']" and path = "''f''" and H = rev
      and hashes = "[''k'' \<mapsto> ''ba'']" and k = "''k''" and body = "''ab''"]
  by simp

section \<open>Reading a range never runs past the file\<close>

text \<open>
  Claim C10. For every list of lines and every range whose start line is at least 1, the
  range readers return a result (no index error). When the end line is past the last
  line, the result is the text from the start line to the last line; when the start line
  is past the last line, it is empty.
\<close>

theorem range_readers_total:
  assumes "1 \<le> start_line fr"
  shows "(\<exists>ls. read_file_lines lines (start_line fr) (end_line fr) = Inr ls) \<and>
         (\<exists>t. read_file_range_content lines fr = Inr t) \<and>
         (int (length lines) < end_line fr \<longrightarrow>
            read_file_lines lines (start_line fr) (end_line fr)
              = Inr (map rstrip_nl (drop (nat (start_line fr - 1)) lines)) \<and>
            read_file_range_content lines fr
              = Inr (join [CHR 0x0A] (map rstrip_nl (drop (nat (start_line fr - 1)) lines))) \<and>
            read_range lines fr = concat (drop (nat (start_line fr - 1)) lines)) \<and>
         (int (length lines) < start_line fr \<longrightarrow>
            read_file_lines lines (start_line fr) (end_line fr) = Inr [] \<and>
            read_file_range_content lines fr = Inr [] \<and>
            read_range lines fr = [])"
proof -
  note tot = read_file_lines_total [OF assms, of lines "end_line fr"]
  have a: "\<exists>ls. read_file_lines lines (start_line fr) (end_line fr) = Inr ls"
    using tot by blast
  have b: "\<exists>t. read_file_range_content lines fr = Inr t"
    using tot by (simp add: read_file_range_content_def)
  have c: "read_file_lines lines (start_line fr) (end_line fr)
              = Inr (map rstrip_nl (drop (nat (start_line fr - 1)) lines))"
    if "int (length lines) < end_line fr"
    using tot that by (simp add: min_def)
  have d: "read_range lines fr = concat (drop (nat (start_line fr - 1)) lines)"
    if "int (length lines) < end_line fr"
    using that assms py_slice_to_end [of "start_line fr - 1" lines]
    by (simp add: read_range_def Let_def min_def max_def)
  have e: "read_file_lines lines (start_line fr) (end_line fr) = Inr []"
    if "int (length lines) < start_line fr"
    using tot that by simp
  have f: "read_range lines fr = []"
    if "int (length lines) < start_line fr"
  proof -
    have "max (start_line fr) 1 - 1 = start_line fr - 1" using assms by simp
    then show ?thesis
      using that py_slice_past_end [of lines "start_line fr - 1"]
      by (simp add: read_range_def Let_def)
  qed
  show ?thesis
    using a b c d e f by (simp add: read_file_range_content_def)
qed

theorem range_readers_total_witness:
  "read_file_lines [''a\<newline>'', ''b\<newline>'', ''c''] 2 7 = Inr [''b'', ''c''] \<and>
   read_range [''a\<newline>'', ''b\<newline>'', ''c''] \<lparr>start_line = 2, end_line = 7\<rparr> = ''b\<newline>c'' \<and>
   read_file_range_content [''a\<newline>'', ''b\<newline>'', ''c''] \<lparr>start_line = 2, end_line = 7\<rparr> = Inr ''b\<newline>c'' \<and>
   read_file_lines [''a\<newline>'', ''b\<newline>'', ''c''] 4 9 = Inr []"
  using range_readers_total [of "\<lparr>start_line = 2, end_line = 7\<rparr>" "[''a\<newline>'', ''b\<newline>'', ''c'']"]
    range_readers_total [of "\<lparr>start_line = 4, end_line = 9\<rparr>" "[''a\<newline>'', ''b\<newline>'', ''c'']"]
  by (simp add: rstrip_nl_def)

section \<open>Reference resolver\<close>

lemma remdups_snoc: "remdups (ys @ [x]) = filter (\<lambda>y. y \<noteq> x) (remdups ys) @ [x]"
  by (induction ys) auto

lemma first_seen_Nil: "first_seen [] = []"
  by (simp add: first_seen_def)

lemma first_seen_Cons: "first_seen (x # xs) = x # filter (\<lambda>y. y \<noteq> x) (first_seen xs)"
  by (simp add: first_seen_def remdups_snoc rev_filter)

lemma distinct_first_seen: "distinct (first_seen xs)"
  by (simp add: first_seen_def)

lemma set_first_seen: "set (first_seen xs) = set xs"
  by (simp add: first_seen_def)

lemma schema_deps_loop_names:
  "schema_deps_loop fs sf idx ms seen deps = Inr out \<Longrightarrow>
     map sd_name out
       = map sd_name deps @ filter (\<lambda>n. n \<notin> seen \<and> n \<in> dom (map_of idx)) (first_seen ms)"
proof (induction ms arbitrary: seen deps)
  case Nil
  then show ?case by (simp add: first_seen_Nil)
next
  case (Cons m ms)
  have f: "filter (\<lambda>n. n \<notin> seen \<and> n \<in> dom (map_of idx)) (filter (\<lambda>y. y \<noteq> m) (first_seen ms))
      = filter (\<lambda>n. n \<notin> insert m seen \<and> n \<in> dom (map_of idx)) (first_seen ms)"
    by (auto simp: filter_filter intro: filter_cong)
  show ?case
  proof (cases "m \<in> seen")
    case True
    then have "insert m seen = seen" by auto
    with True Cons f show ?thesis by (simp add: first_seen_Cons)
  next
    case False
    show ?thesis
    proof (cases "map_of idx m")
      case None
      with False Cons.prems have "schema_deps_loop fs sf idx ms (insert m seen) deps = Inr out"
        by simp
      from Cons.IH [OF this] None False f show ?thesis
        by (simp add: first_seen_Cons domIff)
    next
      case (Some entry)
      with False Cons.prems obtain lines where
        "schema_deps_loop fs sf idx ms (insert m seen)
           (deps @ [\<lparr>sd_name = m, sd_range = se_range entry, sd_file = sf,
                     schema_yaml = read_range lines (se_range entry)\<rparr>]) = Inr out"
        by (auto split: sum.splits)
      from Cons.IH [OF this] Some False f show ?thesis
        by (simp add: first_seen_Cons domIff)
    qed
  qed
qed

lemma schema_deps_loop_total:
  "read_all_lines fs sf = Inr lines \<Longrightarrow> \<exists>out. schema_deps_loop fs sf idx ms seen deps = Inr out"
  by (induction ms arbitrary: seen deps) (auto split: option.splits)

lemma table_deps_loop_names:
  "table_deps_loop fs sf rs ts deps = Inr out \<Longrightarrow>
     map table_name out = map table_name deps @ filter (\<lambda>n. n \<in> dom (map_of rs)) ts"
proof (induction ts arbitrary: deps)
  case Nil
  then show ?case by simp
next
  case (Cons t ts)
  show ?case
  proof (cases "map_of rs t")
    case None
    with Cons show ?thesis by (simp add: domIff)
  next
    case (Some r)
    with Cons.prems obtain sql where
      "table_deps_loop fs sf rs ts (deps @ [\<lparr>table_name = t, td_range = r, td_file = sf, table_sql = sql\<rparr>]) = Inr out"
      by (auto split: sum.splits)
    from Cons.IH [OF this] Some show ?thesis by (simp add: domIff)
  qed
qed

lemma table_deps_loop_total:
  assumes "read_all_lines fs sf = Inr lines" and "\<forall>r \<in> ran (map_of rs). 1 \<le> start_line r"
  shows "\<exists>out. table_deps_loop fs sf rs ts deps = Inr out"
proof (induction ts arbitrary: deps)
  case Nil
  then show ?case by simp
next
  case (Cons t ts)
  show ?case
  proof (cases "map_of rs t")
    case None
    with Cons show ?thesis by simp
  next
    case (Some r)
    then have "1 \<le> start_line r" using assms(2) by (auto simp: ran_def)
    then obtain sql where "read_file_range_content lines r = Inr sql"
      using read_file_range_content_total [of r lines] by blast
    with Some assms(1) Cons show ?thesis by simp
  qed
qed

lemma candidates_sql_new: "first_seen (table_candidates sql_new) = [''orders'']"
  by code_simp

lemma visits_single: "visits_each_once so \<Longrightarrow> so [x] = [x]"
proof -
  assume "visits_each_once so"
  then have "mset (so [x]) = {#x#}" by (simp add: visits_each_once_def)
  then show "so [x] = [x]" by (cases "so [x]") (auto split: if_splits)
qed

text \<open>
  Claim C5. For the query \<open>SELECT * FROM orders WHERE status = 'NEW'\<close> and a schema
  index with an entry \<open>orders\<close> (whose range starts at line 1 or later, the schema file
  being readable), the table-dependency extractor reports exactly \<open>orders\<close>: neither
  \<open>WHERE\<close> nor \<open>NEW\<close> nor \<open>SELECT\<close> is reported, whatever else the index holds and
  in whatever order the set is visited.
\<close>

theorem reference_exclusion:
  assumes "visits_each_once set_order"
    and "map_of (ranges schema_index) ''orders'' = Some r"
    and "1 \<le> start_line r"
    and "fs schema_file = Some (Regular body)"
  shows "\<exists>deps. extract_table_dependencies set_order fs schema_file sql_new schema_index = Inr deps \<and>
           map table_name deps = [''orders''] \<and>
           ''WHERE'' \<notin> set (map table_name deps) \<and>
           ''NEW'' \<notin> set (map table_name deps) \<and>
           ''SELECT'' \<notin> set (map table_name deps)"
proof -
  have o: "set_order (first_seen (table_candidates sql_new)) = [''orders'']"
    using assms(1) by (simp add: candidates_sql_new visits_single)
  obtain sql where "read_file_range_content (readlines body) r = Inr sql"
    using read_file_range_content_total [OF assms(3)] by blast
  then have "extract_table_dependencies set_order fs schema_file sql_new schema_index
      = Inr [\<lparr>table_name = ''orders'', td_range = r, td_file = schema_file, table_sql = sql\<rparr>]"
    using assms(2,4) by (simp add: extract_table_dependencies_def o read_all_lines_def)
  then show ?thesis by simp
qed

lemma visits_id: "visits_each_once (\<lambda>xs. xs)"
  by (simp add: visits_each_once_def)

theorem reference_exclusion_witness:
  "\<exists>deps. extract_table_dependencies (\<lambda>xs. xs) fs_orders ''schema.sql'' sql_new idx_orders = Inr deps \<and>
     map table_name deps = [''orders'']"
  using reference_exclusion [of "\<lambda>xs. xs" idx_orders "\<lparr>start_line = 1, end_line = 3\<rparr>" fs_orders
      "''schema.sql''" "''CREATE TABLE orders (\<newline>  id int\<newline>);\<newline>''"]
  by (auto simp: visits_each_once_def idx_orders_def fs_orders_def)

text \<open>
  Claim C8, as amended. The schema references of an operation are returned without
  duplicates, in the order of their first occurrence in the operation's text, those
  missing from the schema index left out. The table references of a query are returned
  without duplicates and are exactly the candidates found in the index; their order is
  the order in which Python visits a set, not the order of the text. Both extractors
  return a result when the file they read is readable (and, for tables, when the ranges
  of the index start at line 1 or later).
\<close>

theorem resolver_dedup:
  "(extract_schema_dependencies fs spec_file op_block schema_index = Inr deps \<longrightarrow>
      distinct (map sd_name deps) \<and>
      map sd_name deps
        = filter (\<lambda>n. n \<in> dom (map_of schema_index)) (first_seen (findall_schema_ref op_block))) \<and>
   (fs spec_file = Some (Regular body) \<longrightarrow>
      (\<exists>ds. extract_schema_dependencies fs spec_file op_block schema_index = Inr ds)) \<and>
   (visits_each_once set_order \<and>
    extract_table_dependencies set_order fs schema_file sql_text idx = Inr tdeps \<longrightarrow>
      distinct (map table_name tdeps) \<and>
      set (map table_name tdeps) = set (table_candidates sql_text) \<inter> dom (map_of (ranges idx))) \<and>
   (fs schema_file = Some (Regular sbody) \<and> (\<forall>r \<in> ran (map_of (ranges idx)). 1 \<le> start_line r) \<longrightarrow>
      (\<exists>ts. extract_table_dependencies set_order fs schema_file sql_text idx = Inr ts))"
proof -
  have a: "distinct (map sd_name deps) \<and> map sd_name deps
        = filter (\<lambda>n. n \<in> dom (map_of schema_index)) (first_seen (findall_schema_ref op_block))"
    if "extract_schema_dependencies fs spec_file op_block schema_index = Inr deps"
    using schema_deps_loop_names [OF that [unfolded extract_schema_dependencies_def]]
    by (simp add: distinct_first_seen)
  have b: "\<exists>ds. extract_schema_dependencies fs spec_file op_block schema_index = Inr ds"
    if "fs spec_file = Some (Regular body)"
    unfolding extract_schema_dependencies_def
    by (rule schema_deps_loop_total [of fs spec_file "readlines body"])
      (simp add: read_all_lines_def that)
  have c: "distinct (map table_name tdeps) \<and>
      set (map table_name tdeps) = set (table_candidates sql_text) \<inter> dom (map_of (ranges idx))"
    if v: "visits_each_once set_order"
      and e: "extract_table_dependencies set_order fs schema_file sql_text idx = Inr tdeps"
  proof -
    let ?xs = "first_seen (table_candidates sql_text)"
    have m: "mset (set_order ?xs) = mset ?xs"
      using v by (simp add: visits_each_once_def distinct_first_seen)
    then have d: "distinct (set_order ?xs)"
      using distinct_first_seen [of "table_candidates sql_text"] by (metis mset_eq_imp_distinct_iff)
    have s: "set (set_order ?xs) = set (table_candidates sql_text)"
      using m set_first_seen [of "table_candidates sql_text"] by (metis mset_eq_setD)
    from table_deps_loop_names [OF e [unfolded extract_table_dependencies_def]] d s
    show ?thesis by auto
  qed
  have d: "\<exists>ts. extract_table_dependencies set_order fs schema_file sql_text idx = Inr ts"
    if "fs schema_file = Some (Regular sbody)" "\<forall>r \<in> ran (map_of (ranges idx)). 1 \<le> start_line r"
    unfolding extract_table_dependencies_def
    by (rule table_deps_loop_total [of fs schema_file "readlines sbody"])
      (simp_all add: read_all_lines_def that)
  show ?thesis using a b c d by blast
qed

theorem resolver_dedup_witness:
  "extract_schema_dependencies fs_spec ''taskflow.yaml'' block_refs sidx_task = Inr deps_task \<and>
   map sd_name deps_task
     = filter (\<lambda>n. n \<in> dom (map_of sidx_task)) (first_seen (findall_schema_ref block_refs)) \<and>
   visits_each_once (\<lambda>xs. xs) \<and>
   extract_table_dependencies (\<lambda>xs. xs) fs_ab ''schema.sql'' ''SELECT x FROM b JOIN a JOIN b'' idx_ab
     = Inr deps_ba \<and>
   set (map table_name deps_ba)
     = set (table_candidates ''SELECT x FROM b JOIN a JOIN b'') \<inter> dom (map_of (ranges idx_ab))"
proof -
  have e1: "extract_schema_dependencies fs_spec ''taskflow.yaml'' block_refs sidx_task = Inr deps_task"
    by code_simp
  have e2: "extract_table_dependencies (\<lambda>xs. xs) fs_ab ''schema.sql'' ''SELECT x FROM b JOIN a JOIN b'' idx_ab
     = Inr deps_ba"
    by code_simp
  have v: "visits_each_once (\<lambda>xs. xs)"
    by (simp add: visits_each_once_def)
  show ?thesis
    using e1 e2 v
      resolver_dedup [where fs = fs_spec and spec_file = "''taskflow.yaml''" and op_block = block_refs
        and schema_index = sidx_task and deps = deps_task]
      resolver_dedup [where fs = fs_ab and set_order = "\<lambda>xs. xs"
        and schema_file = "''schema.sql''" and sql_text = "''SELECT x FROM b JOIN a JOIN b''"
        and idx = idx_ab and tdeps = deps_ba]
    by blast
qed

text \<open>
  Claim C8 fails as stated for table references: in \<open>INSERT INTO a SELECT x FROM b\<close>
  the table \<open>a\<close> occurs first, and with the set visited in the order of insertion the
  extractor lists \<open>b\<close> first (the pattern for \<open>FROM\<close> is searched before the one for
  \<open>INTO\<close>).
\<close>

theorem table_order_counterexample:
  "extract_table_dependencies (\<lambda>xs. xs) fs_ab ''schema.sql'' ''INSERT INTO a SELECT x FROM b'' idx_ab
     = Inr [\<lparr>table_name = ''b'', td_range = \<lparr>start_line = 2, end_line = 2\<rparr>,
              td_file = ''schema.sql'', table_sql = ''CREATE TABLE b (x int);''\<rparr>,
            \<lparr>table_name = ''a'', td_range = \<lparr>start_line = 1, end_line = 1\<rparr>,
              td_file = ''schema.sql'', table_sql = ''CREATE TABLE a (x int);''\<rparr>]"
  by code_simp

text \<open>
  Whatever the order of the visit, this query and \<open>SELECT x FROM b JOIN a\<close>, where
  \<open>b\<close> occurs first, give the same list: no visiting order puts both in the order of
  their text.
\<close>

lemma table_order_ignores_text:
  "extract_table_dependencies so fs sf ''INSERT INTO a SELECT x FROM b'' idx
     = extract_table_dependencies so fs sf ''SELECT x FROM b JOIN a'' idx"
proof -
  have "first_seen (table_candidates ''INSERT INTO a SELECT x FROM b'') = [''b'', ''a'']"
    by code_simp
  moreover have "first_seen (table_candidates ''SELECT x FROM b JOIN a'') = [''b'', ''a'']"
    by code_simp
  ultimately show ?thesis by (simp add: extract_table_dependencies_def)
qed

section \<open>Range extractors\<close>

lemma all_valid_Nil: "all_valid T [] f"
  by (simp add: all_valid_def)

lemma all_valid_update:
  "all_valid T al f \<Longrightarrow> valid_range T (f v) \<Longrightarrow> all_valid T (AList.update k v al) f"
  unfolding all_valid_def by (induction al) auto

lemma schema_file_loop_valid:
  assumes "all_valid T rs (\<lambda>r. r)"
    and "n + int (length rest) = T"
    and "0 \<le> n"
    and "cur \<noteq> None \<longrightarrow> 1 \<le> start \<and> start \<le> n"
  shows "all_valid T (schema_file_loop rest n cur start indef rs) (\<lambda>r. r)"
  using assms
proof (induction rest arbitrary: n cur start indef rs)
  case Nil
  then have "valid_range T \<lparr>start_line = start, end_line = n\<rparr>" if "cur \<noteq> None"
    using that by (simp add: valid_range_def)
  then show ?case
    using Nil.prems(1) by (auto split: option.splits intro!: all_valid_update)
next
  case (Cons line rest)
  have len: "n + 1 + int (length rest) = T" "n + 1 \<le> T"
    using Cons.prems(2) by auto
  have closed: "all_valid T (AList.update name \<lparr>start_line = start, end_line = e\<rparr> rs) (\<lambda>r. r)"
    if "cur = Some name" "e = n \<or> e = n + 1" for name e
    using that Cons.prems(1,3,4) len by (intro all_valid_update) (auto simp: valid_range_def)
  have opened: "all_valid T (schema_file_loop rest (n + 1) (Some new_name) (n + 1) True rs') (\<lambda>r. r)"
    if "all_valid T rs' (\<lambda>r. r)" for rs' new_name
    using that len Cons.prems(3,4) by (intro Cons.IH) auto
  have kept: "all_valid T (schema_file_loop rest (n + 1) cur' start indef' rs') (\<lambda>r. r)"
    if "all_valid T rs' (\<lambda>r. r)" "cur' = cur \<or> cur' = None" for rs' cur' indef'
    using that len Cons.prems(3,4) by (intro Cons.IH) auto
  show ?case
    using Cons.prems(1)
    by (auto simp: Let_def split: option.splits intro!: opened kept closed)
qed

lemma query_file_loop_valid:
  assumes "all_valid T rs (\<lambda>r. r)"
    and "n + int (length rest) = T"
    and "0 \<le> n"
    and "cur \<noteq> None \<longrightarrow> 1 \<le> start \<and> start \<le> n"
  shows "all_valid T (query_file_loop rest n cur start rs) (\<lambda>r. r)"
  using assms
proof (induction rest arbitrary: n cur start rs)
  case Nil
  then have "valid_range T \<lparr>start_line = start, end_line = n\<rparr>" if "cur \<noteq> None"
    using that by (simp add: valid_range_def)
  then show ?case
    using Nil.prems(1) by (auto split: option.splits intro!: all_valid_update)
next
  case (Cons line rest)
  have len: "n + 1 + int (length rest) = T" "n + 1 \<le> T"
    using Cons.prems(2) by auto
  have closed: "all_valid T (AList.update name \<lparr>start_line = start, end_line = n\<rparr> rs) (\<lambda>r. r)"
    if "cur = Some name" for name
    using that Cons.prems(1,3,4) len by (intro all_valid_update) (auto simp: valid_range_def)
  have opened: "all_valid T (query_file_loop rest (n + 1) (Some new_name) (n + 1) rs') (\<lambda>r. r)"
    if "all_valid T rs' (\<lambda>r. r)" for rs' new_name
    using that len Cons.prems(3,4) by (intro Cons.IH) auto
  have kept: "all_valid T (query_file_loop rest (n + 1) cur' start rs) (\<lambda>r. r)"
    if "cur' = cur" for cur'
    using that len Cons.prems(1,3,4) by (intro Cons.IH) auto
  show ?case
    using Cons.prems(1)
    by (auto simp: Let_def split: option.splits intro!: opened kept closed)
qed

lemma generated_file_loop_valid:
  assumes "all_valid T rs (\<lambda>r. r)"
    and "n + int (length rest) = T"
    and "0 \<le> n"
    and "cur \<noteq> None \<longrightarrow> 1 \<le> start \<and> start \<le> n"
  shows "all_valid T (generated_file_loop rest n cur start bc inent rs) (\<lambda>r. r)"
  using assms
proof (induction rest arbitrary: n cur start bc inent rs)
  case Nil
  then have "valid_range T \<lparr>start_line = start, end_line = n\<rparr>" if "cur \<noteq> None"
    using that by (simp add: valid_range_def)
  then show ?case
    using Nil.prems(1) by (auto split: option.splits intro!: all_valid_update)
next
  case (Cons line rest)
  have len: "n + 1 + int (length rest) = T" "n + 1 \<le> T"
    using Cons.prems(2) by auto
  have closed: "all_valid T (AList.update name \<lparr>start_line = start, end_line = e\<rparr> rs) (\<lambda>r. r)"
    if "cur = Some name" "e = n \<or> e = n + 1" for name e
    using that Cons.prems(1,3,4) len by (intro all_valid_update) (auto simp: valid_range_def)
  have opened: "all_valid T (generated_file_loop rest (n + 1) (Some new_name) (n + 1) bc' True rs') (\<lambda>r. r)"
    if "all_valid T rs' (\<lambda>r. r)" for rs' bc' new_name
    using that len Cons.prems(3,4) by (intro Cons.IH) auto
  have kept: "all_valid T (generated_file_loop rest (n + 1) cur' start bc' inent' rs') (\<lambda>r. r)"
    if "all_valid T rs' (\<lambda>r. r)" "cur' = cur \<or> cur' = None" for rs' cur' inent' bc'
    using that len Cons.prems(3,4) by (intro Cons.IH) auto
  show ?case
    using Cons.prems(1)
    by (auto simp: Let_def split: option.splits intro!: opened kept closed)
qed

lemma boilerplate_loop_valid:
  assumes "all_valid T es be_range"
    and "int i + int (length rest) = T"
    and "T = int (length all_lines)"
    and "cur \<noteq> None \<longrightarrow> 1 \<le> start \<and> start \<le> int i"
  shows "all_valid T (boilerplate_loop all_lines file rest i cur start bc es) be_range"
  using assms
proof (induction rest arbitrary: i cur start bc es)
  case Nil
  then have "valid_range T \<lparr>start_line = start, end_line = int (length all_lines)\<rparr>" if "cur \<noteq> None"
    using that by (simp add: valid_range_def)
  then show ?case
    using Nil.prems(1) by (auto simp: Let_def split: option.splits intro!: all_valid_update)
next
  case (Cons line rest)
  have len: "int (i + 1) + int (length rest) = T" "int i + 1 \<le> T"
    using Cons.prems(2) by auto
  have closed: "all_valid T (close_entity all_lines file c start (int i + 1) es) be_range"
    if "cur = Some c" for c
    using that Cons.prems(1,4) len unfolding close_entity_def Let_def
    by (intro all_valid_update) (auto simp: valid_range_def)
  have opened: "all_valid T (boilerplate_loop all_lines file rest (Suc i) (Some c) (int i + 1) bc' es') be_range"
    if "all_valid T es' be_range" for es' bc' c
    using that len Cons.prems(3) by (intro Cons.IH) auto
  have kept: "all_valid T (boilerplate_loop all_lines file rest (Suc i) cur' start bc' es') be_range"
    if "all_valid T es' be_range" "cur' = cur \<or> cur' = None" for es' cur' bc'
    using that len Cons.prems(3,4) by (intro Cons.IH) auto
  show ?case
    using Cons.prems(1)
    by (auto simp: Let_def split: option.splits intro!: opened kept closed)
qed

lemma extend_end_bounds:
  "e \<le> int k \<Longrightarrow> k \<le> length lines \<Longrightarrow>
     e \<le> extend_end lines k e \<and> extend_end lines k e \<le> int (length lines)"
proof (induction lines k e rule: extend_end.induct)
  case (1 lines k e)
  show ?case
  proof (cases "k < length lines \<and> \<not> ends_operation (lines ! k)")
    case True
    then have "int k + 1 \<le> extend_end lines (k + 1) (int k + 1) \<and>
               extend_end lines (k + 1) (int k + 1) \<le> int (length lines)"
      using 1 by (intro "1.IH") auto
    then show ?thesis
      using True "1.prems" by (subst (1 2) extend_end.simps) auto
  next
    case False
    then show ?thesis
      using "1.prems" by (subst (1 2) extend_end.simps) auto
  qed
qed

lemma scan_operation_bounds:
  "scan_operation lines j = Some (op_id, e) \<Longrightarrow> int j + 1 \<le> e \<and> e \<le> int (length lines)"
proof (induction lines j rule: scan_operation.induct)
  case (1 lines j)
  from "1.prems" have j: "j < length lines" and ne: "\<not> ends_operation (lines ! j)"
    by (subst (asm) scan_operation.simps, simp add: Let_def split: if_splits)+
  show ?case
  proof (cases "startswith (strip (lines ! j)) ''operationId:''")
    case True
    then have "e = extend_end lines (j + 1) (int j + 1)"
      using "1.prems" j ne by (subst (asm) scan_operation.simps) (simp add: Let_def)
    then show ?thesis
      using extend_end_bounds [of "int j + 1" "j + 1" lines] j by auto
  next
    case False
    then have "scan_operation lines (j + 1) = Some (op_id, e)"
      using "1.prems" j ne by (subst (asm) scan_operation.simps) (simp add: Let_def)
    then have "int (j + 1) + 1 \<le> e \<and> e \<le> int (length lines)"
      using j ne False by (intro "1.IH") auto
    then show ?thesis by simp
  qed
qed

lemma index_paths_loop_valid:
  assumes "all_valid (int (length lines)) paths pe_range"
    and "\<forall>pl p. cur = Some (pl, p) \<longrightarrow> 1 \<le> pl \<and> pl \<le> int i"
  shows "all_valid (int (length lines)) (index_paths_loop lines i started cur paths) pe_range"
  using assms
proof (induction "length lines - i" arbitrary: i started cur paths)
  case 0
  then show ?case
    by (subst index_paths_loop.simps) simp
next
  case (Suc n)
  let ?T = "int (length lines)"
  from Suc.hyps(2) have i: "i < length lines" and n: "n = length lines - Suc i"
    by auto
  have step: "all_valid ?T (index_paths_loop lines (Suc i) started' cur' paths') pe_range"
    if "all_valid ?T paths' pe_range"
      and "cur' = cur \<or> (\<exists>p. cur' = Some (int i + 1, p))" for started' cur' paths'
    using that Suc.prems(2) by (intro Suc.hyps(1) [OF n]) auto
  have updated: "all_valid ?T
      (AList.update op_id \<lparr>operation_id = op_id, pe_method = m, pe_path = p,
          pe_range = \<lparr>start_line = pl, end_line = e\<rparr>\<rparr> paths) pe_range"
    if "cur = Some (pl, p)" "scan_operation lines (Suc i) = Some (op_id, e)" for op_id m p pl e
    using that Suc.prems scan_operation_bounds [OF that(2)]
    by (intro all_valid_update) (auto simp: valid_range_def)
  show ?case
    using i Suc.prems(1)
    by (subst index_paths_loop.simps)
      (auto simp: Let_def split: option.splits prod.splits intro!: step updated)
qed

lemma schema_extent_bounds:
  "e \<le> int j \<Longrightarrow> j \<le> length lines \<Longrightarrow>
     e \<le> snd (schema_extent lines j e) \<and> snd (schema_extent lines j e) \<le> int (length lines)"
proof (induction "length lines - j" arbitrary: j e)
  case 0
  then show ?case
    by (subst (1 2) schema_extent.simps) simp
next
  case (Suc n)
  then have j: "j < length lines" and n: "n = length lines - Suc j"
    by auto
  have "int j + 1 \<le> snd (schema_extent lines (Suc j) (int j + 1)) \<and>
        snd (schema_extent lines (Suc j) (int j + 1)) \<le> int (length lines)"
    using j by (intro Suc.hyps(1) [OF n]) auto
  then show ?case
    using j Suc.prems by (subst (1 2) schema_extent.simps) (auto simp: Let_def)
qed

lemma index_schemas_loop_valid:
  assumes "all_valid (int (length lines)) schemas se_range"
  shows "all_valid (int (length lines)) (index_schemas_loop lines i started schemas) se_range"
  using assms
proof (induction "length lines - i" arbitrary: i started schemas rule: less_induct)
  case less
  let ?T = "int (length lines)"
  show ?case
  proof (cases "i < length lines")
    case False
    then show ?thesis
      using less.prems by (subst index_schemas_loop.simps) simp
  next
    case True
    have step: "all_valid ?T (index_schemas_loop lines i' started' schemas') se_range"
      if "all_valid ?T schemas' se_range" "i < i'" for i' started' schemas'
      using that True by (intro less.hyps) auto
    have ext: "i < fst (schema_extent lines (Suc i) e)" for e
      using schema_extent_ge [of "Suc i" lines e] by simp
    have updated: "all_valid ?T
        (AList.update name \<lparr>se_name = name,
            se_range = \<lparr>start_line = int i + 1,
                        end_line = snd (schema_extent lines (Suc i) (int i + 1))\<rparr>\<rparr> schemas) se_range"
      for name
      using less.prems True schema_extent_bounds [of "int i + 1" "Suc i" lines]
      by (intro all_valid_update) (auto simp: valid_range_def)
    show ?thesis
      using True less.prems
      by (subst index_schemas_loop.simps)
        (auto simp: Let_def split: option.splits intro!: step updated ext)
  qed
qed

lemma range_validity_all:
  "all_valid (int (length lines)) (index_paths_lines lines) pe_range \<and>
   all_valid (int (length lines)) (index_schemas_lines lines) se_range \<and>
   all_valid (int (length lines)) (index_boilerplate_lines f lines) be_range \<and>
   all_valid (int (length lines)) (ranges (index_schema_lines p lines)) (\<lambda>r. r) \<and>
   all_valid (int (length lines)) (ranges (index_query_lines p lines)) (\<lambda>r. r) \<and>
   all_valid (int (length lines)) (ranges (index_generated_lines p lines)) (\<lambda>r. r)"
proof -
  have "all_valid (int (length lines)) (index_paths_lines lines) pe_range"
    unfolding index_paths_lines_def by (intro index_paths_loop_valid all_valid_Nil) simp
  moreover have "all_valid (int (length lines)) (index_schemas_lines lines) se_range"
    unfolding index_schemas_lines_def by (intro index_schemas_loop_valid all_valid_Nil)
  moreover have "all_valid (int (length lines)) (index_boilerplate_lines f lines) be_range"
    unfolding index_boilerplate_lines_def by (intro boilerplate_loop_valid all_valid_Nil) simp_all
  moreover have "all_valid (int (length lines)) (schema_file_loop lines 0 None 0 False []) (\<lambda>r. r)"
    by (intro schema_file_loop_valid all_valid_Nil) simp_all
  moreover have "all_valid (int (length lines)) (query_file_loop lines 0 None 0 []) (\<lambda>r. r)"
    by (intro query_file_loop_valid all_valid_Nil) simp_all
  moreover have "all_valid (int (length lines)) (generated_file_loop lines 0 None 0 0 False []) (\<lambda>r. r)"
    by (intro generated_file_loop_valid all_valid_Nil) simp_all
  ultimately show ?thesis
    by (simp add: index_schema_lines_def index_query_lines_def index_generated_lines_def)
qed

text \<open>
  Claim C4. Every entity that an extractor produces from the lines of a file (paths and
  schemas of the specification, boilerplate entities, SQL schema, SQL queries, generated
  Go source) has a range with \<open>1 \<le> start_line \<le> end_line \<le> total_lines\<close>, where
  \<open>total_lines\<close> is the number of lines of that file (and the \<open>total_lines\<close> that
  the index records).
\<close>

theorem range_validity:
  "(\<forall>(name, e) \<in> set (index_paths_lines lines). valid_range (int (length lines)) (pe_range e)) \<and>
   (\<forall>(name, e) \<in> set (index_schemas_lines lines). valid_range (int (length lines)) (se_range e)) \<and>
   (\<forall>(name, e) \<in> set (index_boilerplate_lines file lines).
      valid_range (int (length lines)) (be_range e)) \<and>
   (\<forall>(name, r) \<in> set (ranges (index_schema_lines path lines)).
      valid_range (int (length lines)) r) \<and>
   (\<forall>(name, r) \<in> set (ranges (index_query_lines path lines)).
      valid_range (int (length lines)) r) \<and>
   (\<forall>(name, r) \<in> set (ranges (index_generated_lines path lines)).
      valid_range (int (length lines)) r) \<and>
   total_lines (index_schema_lines path lines) = int (length lines) \<and>
   total_lines (index_query_lines path lines) = int (length lines) \<and>
   total_lines (index_generated_lines path lines) = int (length lines)"
proof -
  have t: "total_lines (index_schema_lines path lines) = int (length lines)"
    "total_lines (index_query_lines path lines) = int (length lines)"
    "total_lines (index_generated_lines path lines) = int (length lines)"
    by (simp_all add: index_schema_lines_def index_query_lines_def index_generated_lines_def)
  show ?thesis
    using range_validity_all [of lines "file" path] t unfolding all_valid_def by simp
qed

lemma sample_indices:
  "index_schemas_lines spec_doc
     = [(''Task'', \<lparr>se_name = ''Task'', se_range = \<lparr>start_line = 12, end_line = 13\<rparr>\<rparr>)]"
  "index_paths_lines spec_doc
     = [(''ListTasks'',
         \<lparr>operation_id = ''ListTasks'', pe_method = ''GET'', pe_path = ''/tasks'',
          pe_range = \<lparr>start_line = 3, end_line = 9\<rparr>\<rparr>)]"
  "ranges (index_schema_lines ''schema.sql'' schema_sql_doc)
     = [(''orders'', \<lparr>start_line = 1, end_line = 3\<rparr>)]"
  "ranges (index_query_lines ''query.sql'' query_sql_doc)
     = [(''GetOrder'', \<lparr>start_line = 1, end_line = 2\<rparr>)]"
  "ranges (index_generated_lines ''query.sql.go'' go_foo_bar)
     = [(''Foo'', \<lparr>start_line = 1, end_line = 1\<rparr>), (''Bar'', \<lparr>start_line = 2, end_line = 2\<rparr>)]"
  "index_boilerplate_lines ''boilerplate.gen.go'' go_foo_bar
     = [(''Foo'', \<lparr>be_type = ''struct'', be_name = ''Foo'', be_file = ''boilerplate.gen.go'',
                  be_range = \<lparr>start_line = 1, end_line = 1\<rparr>,
                  be_code = ''type Foo struct { A int }\<newline>''\<rparr>)]"
  by code_simp+

theorem range_validity_witness:
  "(''ListTasks'',
      \<lparr>operation_id = ''ListTasks'', pe_method = ''GET'', pe_path = ''/tasks'',
       pe_range = \<lparr>start_line = 3, end_line = 9\<rparr>\<rparr>) \<in> set (index_paths_lines spec_doc) \<and>
   valid_range (int (length spec_doc)) \<lparr>start_line = 3, end_line = 9\<rparr> \<and>
   valid_range (int (length spec_doc)) \<lparr>start_line = 12, end_line = 13\<rparr> \<and>
   valid_range (int (length go_foo_bar)) \<lparr>start_line = 1, end_line = 1\<rparr> \<and>
   valid_range (int (length go_foo_bar)) \<lparr>start_line = 2, end_line = 2\<rparr> \<and>
   valid_range (int (length schema_sql_doc)) \<lparr>start_line = 1, end_line = 3\<rparr> \<and>
   valid_range (int (length query_sql_doc)) \<lparr>start_line = 1, end_line = 2\<rparr>"
  using range_validity [of spec_doc "''boilerplate.gen.go''" "''schema.sql''"]
    range_validity [of go_foo_bar "''boilerplate.gen.go''" "''query.sql.go''"]
    range_validity [of schema_sql_doc "''boilerplate.gen.go''" "''schema.sql''"]
    range_validity [of query_sql_doc "''boilerplate.gen.go''" "''query.sql''"]
  by (simp add: sample_indices)












text \<open>
  Claim C7 fails as stated for the extractor of the API generator: of the two lines
  \<open>type Foo struct { A int }\<close> and \<open>func Bar() {}\<close> it indexes \<open>Foo\<close> only, since
  its pattern for functions matches methods of \<open>ServerInterfaceWrapper\<close> and nothing
  else.
\<close>

theorem boilerplate_scenario_counterexample:
  "map fst (index_boilerplate_lines ''boilerplate.gen.go'' go_foo_bar) = [''Foo'']"
  by code_simp

text \<open>
  Claim C7, as amended. For those two lines, \<open>CacheGenerator.index_generated_file\<close>
  indexes exactly two entities, \<open>Foo\<close> with the range 1..1 and \<open>Bar\<close> with the range
  2..2, which do not overlap; its index holds names and ranges, no kinds.
  \<open>ApiCacheGenerator.index_boilerplate\<close> indexes exactly one entity, \<open>Foo\<close>, of kind
  \<open>struct\<close>, with the range 1..1.
\<close>

theorem generated_source_scenario:
  "ranges (index_generated_lines ''query.sql.go'' go_foo_bar)
     = [(''Foo'', \<lparr>start_line = 1, end_line = 1\<rparr>), (''Bar'', \<lparr>start_line = 2, end_line = 2\<rparr>)] \<and>
   index_boilerplate_lines ''boilerplate.gen.go'' go_foo_bar
     = [(''Foo'', \<lparr>be_type = ''struct'', be_name = ''Foo'', be_file = ''boilerplate.gen.go'',
                  be_range = \<lparr>start_line = 1, end_line = 1\<rparr>,
                  be_code = ''type Foo struct { A int }\<newline>''\<rparr>)]"
  by code_simp


section \<open>Index persistence\<close>




lemma boilerplate_loop_inv:
  assumes "P es" and "\<And>k v es. P es \<Longrightarrow> be_name v = k \<Longrightarrow> P (AList.update k v es)"
  shows "P (boilerplate_loop all_lines file rest i cur start bc es)"
  using assms(1)
  by (induction rest arbitrary: i cur start bc es)
    (auto simp: Let_def close_entity_def assms(2) split: option.splits)

lemma index_paths_loop_inv:
  assumes "P paths" and "\<And>k v ps. P ps \<Longrightarrow> operation_id v = k \<Longrightarrow> P (AList.update k v ps)"
  shows "P (index_paths_loop lines i started cur paths)"
  using assms(1)
proof (induction "length lines - i" arbitrary: i started cur paths)
  case 0
  then show ?case by (subst index_paths_loop.simps) simp
next
  case (Suc n)
  from Suc.hyps(2) have i: "i < length lines" and n: "n = length lines - Suc i"
    by auto
  have step: "P (index_paths_loop lines (Suc i) started' cur' paths')" if "P paths'"
    for started' cur' paths'
    using that by (rule Suc.hyps(1) [OF n])
  show ?case
    using i Suc.prems
    by (subst index_paths_loop.simps)
      (auto simp: Let_def assms(2) split: option.splits prod.splits intro!: step)
qed

lemma index_schemas_loop_inv:
  assumes "P schemas" and "\<And>k v ss. P ss \<Longrightarrow> se_name v = k \<Longrightarrow> P (AList.update k v ss)"
  shows "P (index_schemas_loop lines i started schemas)"
  using assms(1)
proof (induction "length lines - i" arbitrary: i started schemas rule: less_induct)
  case less
  show ?case
  proof (cases "i < length lines")
    case False
    then show ?thesis
      using less.prems by (subst index_schemas_loop.simps) simp
  next
    case True
    have step: "P (index_schemas_loop lines i' started' schemas')"
      if "P schemas'" "i < i'" for i' started' schemas'
      using that True by (intro less.hyps) auto
    have ext: "i < fst (schema_extent lines (Suc i) e)" for e
      using schema_extent_ge [of "Suc i" lines e] by simp
    show ?thesis
      using True less.prems
      by (subst index_schemas_loop.simps)
        (auto simp: Let_def assms(2) split: option.splits intro!: step ext)
  qed
qed

lemma in_update_cases:
  "(a, w) \<in> set (AList.update k v al) \<Longrightarrow> (a = k \<and> w = v) \<or> (a, w) \<in> set al"
  by (induction al) (auto split: if_splits)

lemma keyed_by_Nil: "keyed_by f []"
  by (simp add: keyed_by_def)

lemma keyed_by_update: "keyed_by f d \<Longrightarrow> f v = k \<Longrightarrow> keyed_by f (AList.update k v d)"
  unfolding keyed_by_def
  by (auto simp: distinct_update dest!: in_update_cases)

lemma range_round_trip: "range_of_dict (range_to_dict r) = Inr r"
  by (simp add: range_of_dict_def range_to_dict_def bind_err_def item_def as_int_def)

lemma update_append_new: "k \<notin> fst ` set d \<Longrightarrow> AList.update k x d = d @ [(k, x)]"
  by (induction d) auto

lemma build_dict_round_trip:
  assumes "distinct (map fst es)" and "fst ` set es \<inter> fst ` set d = {}"
    and "\<forall>(k, e) \<in> set es. f k (g e) = Inr e"
  shows "build_dict f (map (\<lambda>(k, e). (k, g e)) es) d = Inr (d @ es)"
  using assms
proof (induction es arbitrary: d)
  case Nil
  then show ?case by simp
next
  case (Cons a es)
  obtain k e where a: "a = (k, e)" by (cases a)
  have k: "k \<notin> fst ` set d" using Cons.prems(2) a by auto
  have "build_dict f (map (\<lambda>(k, e). (k, g e)) es) (d @ [(k, e)]) = Inr ((d @ [(k, e)]) @ es)"
    using Cons.prems a by (intro Cons.IH) auto
  then show ?case
    using Cons.prems(3) a k by (simp add: update_append_new)
qed

lemma load_section_round_trip:
  assumes "keyed_by name_of entries"
    and "\<And>k e. name_of e = k \<Longrightarrow> load_entry k (to_dict e) = Inr e"
    and "section \<noteq> ''file_path''" and "section \<noteq> ''total_lines''"
  shows "load_section section load_entry (index_data section path n to_dict entries) = Inr entries"
proof -
  have "build_dict load_entry (map (\<lambda>(k, e). (k, to_dict e)) entries) [] = Inr ([] @ entries)"
    using assms(1,2) unfolding keyed_by_def by (intro build_dict_round_trip) auto
  then show ?thesis
    using assms(3,4)
    by (simp add: load_section_def index_data_def item_or_def items_def bind_err_def)
qed

lemma path_entry_round_trip: "operation_id e = k \<Longrightarrow> load_path_entry k (PathEntry_to_dict e) = Inr e"
  by (simp add: load_path_entry_def PathEntry_to_dict_def bind_err_def item_def as_string_def
      range_round_trip)

lemma schema_entry_round_trip: "se_name e = k \<Longrightarrow> load_schema_entry k (SchemaEntry_to_dict e) = Inr e"
  by (simp add: load_schema_entry_def SchemaEntry_to_dict_def bind_err_def item_def range_round_trip)

lemma boilerplate_entity_round_trip:
  "be_name e = k \<Longrightarrow> load_boilerplate_entity k (BoilerplateEntity_to_dict e) = Inr e"
  by (simp add: load_boilerplate_entity_def BoilerplateEntity_to_dict_def bind_err_def item_def
      item_or_def as_string_def range_round_trip)


lemma keyed_paths: "keyed_by operation_id (index_paths_lines lines)"
  unfolding index_paths_lines_def
  by (rule index_paths_loop_inv) (auto intro: keyed_by_Nil keyed_by_update)

lemma keyed_schemas: "keyed_by se_name (index_schemas_lines lines)"
  unfolding index_schemas_lines_def
  by (rule index_schemas_loop_inv) (auto intro: keyed_by_Nil keyed_by_update)

lemma keyed_boilerplate: "keyed_by be_name (index_boilerplate_lines file lines)"
  unfolding index_boilerplate_lines_def
  by (rule boilerplate_loop_inv) (auto intro: keyed_by_Nil keyed_by_update)





section \<open>Runs of the SQL generator\<close>

lemma bind_err_Inr: "bind_err (Inr x) f = f x"
  by (simp add: bind_err_def)

lemma bind_err_Inl: "bind_err (Inl e) f = Inl e"
  by (simp add: bind_err_def)















section \<open>Runs of the API generator\<close>

lemma store_hashes_same: "st\<lparr>st_hashes := st_hashes st\<rparr> = st"
  by simp

text \<open>What an indexer of the API generator changes, and that asking again changes nothing.\<close>

lemma api_index_frame:
  assumes "api_index H fs k p f load extract data st = Inr (idx, st')"
  shows "(\<forall>k'. k' \<noteq> k \<longrightarrow> st_hashes st' k' = st_hashes st k') \<and>
         (\<forall>f'. f' \<noteq> f \<longrightarrow> st_cache st' f' = st_cache st f')"
  using assms
  by (auto simp: api_index_def should_reindex_def file_hash_def bind_err_def Let_def
      split: if_splits option.splits fnode.splits sum.splits bool.splits prod.splits)

lemma api_index_again:
  assumes run: "api_index H fs k p f load extract data st = Inr (idx, st')"
    and rt: "\<And>lines. load (data (extract lines) (int (length lines))) = Inr (extract lines)"
    and same: "st_hashes st2 k = st_hashes st' k" "st_cache st2 f = st_cache st' f"
  shows "api_index H fs k p f load extract data st2 = Inr (idx, st2)"
proof (cases "fs p")
  case None
  then show ?thesis
    using run same
    by (auto simp: api_index_def should_reindex_def bind_err_def read_all_lines_def
        split: option.splits sum.splits)
next
  case (Some node)
  obtain current out where fh: "file_hash H fs p = (current, out)"
    by (cases "file_hash H fs p")
  show ?thesis
  proof (cases "st_hashes st k = Some current \<and> st_cache st f \<noteq> None")
    case True
    then show ?thesis
      using run same Some fh
      by (auto simp: api_index_def should_reindex_def bind_err_def split: sum.splits)
  next
    case False
    then obtain lines where l: "read_all_lines fs p = Inr lines"
      and i: "idx = extract lines"
      and h: "st_hashes st' k = Some current"
      and c: "st_cache st' f = Some (data (extract lines) (int (length lines)))"
      using run Some fh
      by (auto simp: api_index_def should_reindex_def bind_err_def Let_def
          split: sum.splits option.splits if_splits)
    show ?thesis
      using same Some fh h c i rt [of lines]
      by (simp add: api_index_def should_reindex_def bind_err_def)
  qed
qed

lemma append_eq_suffix: "xs @ s = t \<Longrightarrow> take (length s) (rev t) = rev s"
  by auto

lemma operation_caches_map_add:
  "\<exists>m. dom m \<subseteq> {op @ ''.api.cache.json'' |op. True} \<and>
       (\<forall>cache. operation_caches cfg fs S B ops cache = cache ++ m)"
proof (induction ops)
  case Nil
  show ?case by (rule exI [of _ Map.empty]) simp
next
  case (Cons a ops)
  obtain op_id entry where a: "a = (op_id, entry)" by (cases a)
  from Cons obtain m where m: "dom m \<subseteq> {op @ ''.api.cache.json'' |op. True}"
    "\<And>cache. operation_caches cfg fs S B ops cache = cache ++ m"
    by blast
  show ?case
  proof (cases "generate_operation_cache cfg fs entry S B")
    case (Inl e)
    then show ?thesis using m a by (intro exI [of _ m]) simp
  next
    case (Inr w)
    obtain name obj where w: "w = (name, obj)" by (cases w)
    have n: "name = operation_id entry @ ''.api.cache.json''"
      using Inr w
      by (auto simp: generate_operation_cache_def bind_err_def Let_def split: sum.splits)
    show ?thesis
      using m a Inr w n
    proof (intro exI [of _ "[name \<mapsto> obj] ++ m"] conjI allI)
      show "dom ([name \<mapsto> obj] ++ m) \<subseteq> {op @ ''.api.cache.json'' |op. True}"
        using m(1) n by auto
      show "operation_caches cfg fs S B (a # ops) cache = cache ++ ([name \<mapsto> obj] ++ m)" for cache
        using m(2) a Inr w by simp
    qed
  qed
qed

lemma operation_caches_again:
  "operation_caches cfg fs S B ops (operation_caches cfg fs S B ops cache)
     = operation_caches cfg fs S B ops cache"
proof -
  obtain m where m: "\<And>cache. operation_caches cfg fs S B ops cache = cache ++ m"
    using operation_caches_map_add by blast
  have "m ++ m = m"
    by (auto simp: map_add_def fun_eq_iff split: option.splits)
  then have "(cache ++ m) ++ m = cache ++ m"
    by (metis map_add_assoc)
  then show ?thesis by (simp add: m)
qed

lemma operation_caches_frame:
  assumes "\<And>op. f \<noteq> op @ ''.api.cache.json''"
  shows "operation_caches cfg fs S B ops cache f = cache f"
proof -
  obtain m where m: "dom m \<subseteq> {op @ ''.api.cache.json'' |op. True}"
    "\<And>cache. operation_caches cfg fs S B ops cache = cache ++ m"
    using operation_caches_map_add by blast
  have "m f = None"
  proof (rule ccontr)
    assume "m f \<noteq> None"
    then have "f \<in> dom m" by (simp add: domIff)
    then obtain op where "f = op @ ''.api.cache.json''" using m(1) by blast
    then show False using assms by blast
  qed
  then show ?thesis by (simp add: m(2) map_add_def)
qed

lemma index_names_not_caches:
  "''taskflow.paths.index.json'' \<noteq> op @ ''.api.cache.json''"
  "''taskflow.schemas.index.json'' \<noteq> op @ ''.api.cache.json''"
  "''boilerplate.gen.go.index.json'' \<noteq> op @ ''.api.cache.json''"
  by (auto dest!: append_eq_suffix [OF sym])

lemma paths_rt:
  "load_section ''paths'' load_path_entry
     (index_data ''paths'' p n PathEntry_to_dict (index_paths_lines lines)) = Inr (index_paths_lines lines)"
  by (simp add: load_section_round_trip [OF keyed_paths path_entry_round_trip])

lemma schemas_rt:
  "load_section ''schemas'' load_schema_entry
     (index_data ''schemas'' p n SchemaEntry_to_dict (index_schemas_lines lines))
     = Inr (index_schemas_lines lines)"
  by (simp add: load_section_round_trip [OF keyed_schemas schema_entry_round_trip])

lemma boilerplate_rt:
  "load_section ''entities'' load_boilerplate_entity
     (index_data ''entities'' p n BoilerplateEntity_to_dict (index_boilerplate_lines f lines))
     = Inr (index_boilerplate_lines f lines)"
  by (simp add: load_section_round_trip [OF keyed_boilerplate boilerplate_entity_round_trip])

lemma api_generate_again:
  assumes "api_generate H cfg fs st = Inr st1"
  shows "api_generate H cfg fs st1 = Inr st1"
proof -
  from assms obtain P sa S sb B sc where
    p: "index_paths H cfg fs st = Inr (P, sa)"
    and s: "index_schemas H cfg fs sa = Inr (S, sb)"
    and b: "index_boilerplate H cfg fs sb = Inr (B, sc)"
    and st1: "st1 = sc\<lparr>st_cache := operation_caches cfg fs S B P (st_cache sc)\<rparr>"
    by (auto simp: api_generate_def bind_err_def split: sum.splits)
  note fp = api_index_frame [OF p [unfolded index_paths_def]]
  note fs' = api_index_frame [OF s [unfolded index_schemas_def]]
  note fb = api_index_frame [OF b [unfolded index_boilerplate_def]]
  have h1: "st_hashes st1 = st_hashes sc"
    by (simp add: st1)
  have c1: "st_cache st1 f = st_cache sc f" if "\<And>op. f \<noteq> op @ ''.api.cache.json''" for f
    using that by (simp add: st1 operation_caches_frame)
  have p2: "index_paths H cfg fs st1 = Inr (P, st1)"
    unfolding index_paths_def
  proof (rule api_index_again [OF p [unfolded index_paths_def]])
    show "st_hashes st1 ''taskflow.yaml'' = st_hashes sa ''taskflow.yaml''"
      using fs' fb by (simp add: h1)
    show "st_cache st1 ''taskflow.paths.index.json'' = st_cache sa ''taskflow.paths.index.json''"
      using fs' fb by (simp add: c1 index_names_not_caches)
  qed (rule paths_rt)
  have s2: "index_schemas H cfg fs st1 = Inr (S, st1)"
    unfolding index_schemas_def
  proof (rule api_index_again [OF s [unfolded index_schemas_def]])
    show "st_hashes st1 ''taskflow.yaml.schemas'' = st_hashes sb ''taskflow.yaml.schemas''"
      using fb by (simp add: h1)
    show "st_cache st1 ''taskflow.schemas.index.json'' = st_cache sb ''taskflow.schemas.index.json''"
      using fb by (simp add: c1 index_names_not_caches)
  qed (rule schemas_rt)
  have b2: "index_boilerplate H cfg fs st1 = Inr (B, st1)"
    unfolding index_boilerplate_def
  proof (rule api_index_again [OF b [unfolded index_boilerplate_def]])
    show "st_hashes st1 ''boilerplate.gen.go'' = st_hashes sc ''boilerplate.gen.go''"
      by (simp add: h1)
    show "st_cache st1 ''boilerplate.gen.go.index.json'' = st_cache sc ''boilerplate.gen.go.index.json''"
      by (simp add: c1 index_names_not_caches)
  qed (rule boilerplate_rt)
  have "st1\<lparr>st_cache := operation_caches cfg fs S B P (st_cache st1)\<rparr> = st1"
    by (simp add: st1 operation_caches_again)
  then show ?thesis
    by (simp add: api_generate_def p2 s2 b2 bind_err_def)
qed
section \<open>Saving an index and loading it back\<close>







section \<open>Two runs in succession\<close>

text \<open>
  Claim C1: a second run with no change to any source file leaves every cache file of an
  operation or a query as the first run wrote it. \<open>CacheGenerator.generate\<close> breaks
  this. It saves the index of the query file under the fixed name
  \<open>query.sql.index.json\<close> and the index of every generated file under
  \<open>stem + .index.json\<close>; for the generated file \<open>query.sql.go\<close> both names are the
  same, and the index of the Go file replaces the index of the queries. The first run
  still holds the query index in memory and writes \<open>GetA.cache.json\<close> with the text of
  the query (lines 1 to 2 of \<open>query.sql\<close>) and the table \<open>a\<close>. The second run finds
  no file changed, loads \<open>query.sql.index.json\<close> as the query index, takes the Go
  function \<open>GetA\<close> (line 3 of \<open>query.sql.go\<close>) for a query, and writes
  \<open>GetA.cache.json\<close> again, with the empty text that line 3 of the two-line file
  \<open>query.sql\<close> gives and no table.
\<close>

theorem stem_collision_run:
  "stem ''gen/query.sql.go'' @ ''.index.json'' = ''query.sql.index.json'' \<and>
   cache_after (sql_generate (\<lambda>xs. xs) (\<lambda>s. s) cfg_sqlc fs_sqlc empty_store) ''GetA.cache.json''
     = Some (JObject
         [(''query_name'', JString ''GetA''),
          (''query_sql'', JString ''-- name: GetA :one\<newline>SELECT x FROM a;''),
          (''query_range'', JObject [(''start_line'', JInt 1), (''end_line'', JInt 2)]),
          (''query_file'', JString ''query.sql''),
          (''tables'',
           JArray [JObject [(''table_name'', JString ''a''),
                            (''range'', JObject [(''start_line'', JInt 1), (''end_line'', JInt 1)]),
                            (''file'', JString ''schema.sql''),
                            (''table_sql'', JString ''CREATE TABLE a (x int);'')]]),
          (''generated_code'',
           JArray [JObject [(''type'', JString ''function''), (''name'', JString ''GetA''),
                            (''code'', JString ''func GetA() {}''),
                            (''range'', JObject [(''start_line'', JInt 3), (''end_line'', JInt 3)]),
                            (''file'', JString ''gen/query.sql.go'')]])]) \<and>
   cache_after (twice (sql_generate (\<lambda>xs. xs) (\<lambda>s. s) cfg_sqlc fs_sqlc) empty_store)
       ''GetA.cache.json''
     = Some (JObject
         [(''query_name'', JString ''GetA''),
          (''query_sql'', JString []),
          (''query_range'', JObject [(''start_line'', JInt 3), (''end_line'', JInt 3)]),
          (''query_file'', JString ''query.sql''),
          (''tables'', JArray []),
          (''generated_code'',
           JArray [JObject [(''type'', JString ''function''), (''name'', JString ''GetA''),
                            (''code'', JString ''func GetA() {}''),
                            (''range'', JObject [(''start_line'', JInt 3), (''end_line'', JInt 3)]),
                            (''file'', JString ''gen/query.sql.go'')]])])"
  by code_simp

end
